theory Spec2Isabelle
  imports Main
begin

section \<open>Strings\<close>

text \<open>
  A JavaScript string is modelled by the \<^typ>\<open>string\<close> of its UTF-8 bytes. The separators the
  source looks for (the line feed, the marker \<open>data: \<close>) are ASCII, so splitting, prefix
  tests and \<open>substring(6)\<close> cut a string at the same places in both representations.
  The literals of the source that are not ASCII are given by their bytes.
\<close>

definition newline :: char where
  "newline = CHR 0x0A"

definition startsWith :: "string \<Rightarrow> string \<Rightarrow> bool" where
  \<comment> \<open>\<open>s.startsWith(p)\<close>\<close>
  "startsWith p s = (take (length p) s = p)"

definition endsWith :: "string \<Rightarrow> string \<Rightarrow> bool" where
  "endsWith p s = (length p \<le> length s \<and> drop (length s - length p) s = p)"

text \<open>\<open>s.split('\n')\<close>: the pieces between line feeds; never an empty array.\<close>

fun split_nl :: "string \<Rightarrow> string list" where
  "split_nl [] = [[]]"
| "split_nl (c # cs) =
     (if c = newline then [] # split_nl cs
      else (case split_nl cs of [] \<Rightarrow> [[c]] | l # ls \<Rightarrow> (c # l) # ls))"

text \<open>\<open>xs.pop()\<close>: the last element (undefined on an empty array) and the shortened array.\<close>

definition js_pop :: "'a list \<Rightarrow> 'a option \<times> 'a list" where
  "js_pop xs = (case xs of [] \<Rightarrow> (None, []) | _ \<Rightarrow> (Some (last xs), butlast xs))"

text \<open>
  The code points that \<open>String.prototype.trim\<close> strips (white space and line terminators of
  ECMAScript), each as its UTF-8 encoding.
\<close>

definition js_white_space :: "string list" where
  "js_white_space =
     [[CHR 0x09], [CHR 0x0A], [CHR 0x0B], [CHR 0x0C], [CHR 0x0D], [CHR 0x20],
      [CHR 0xC2, CHR 0xA0], [CHR 0xE1, CHR 0x9A, CHR 0x80],
      [CHR 0xE2, CHR 0x80, CHR 0x80], [CHR 0xE2, CHR 0x80, CHR 0x81],
      [CHR 0xE2, CHR 0x80, CHR 0x82], [CHR 0xE2, CHR 0x80, CHR 0x83],
      [CHR 0xE2, CHR 0x80, CHR 0x84], [CHR 0xE2, CHR 0x80, CHR 0x85],
      [CHR 0xE2, CHR 0x80, CHR 0x86], [CHR 0xE2, CHR 0x80, CHR 0x87],
      [CHR 0xE2, CHR 0x80, CHR 0x88], [CHR 0xE2, CHR 0x80, CHR 0x89],
      [CHR 0xE2, CHR 0x80, CHR 0x8A], [CHR 0xE2, CHR 0x80, CHR 0xA8],
      [CHR 0xE2, CHR 0x80, CHR 0xA9], [CHR 0xE2, CHR 0x80, CHR 0xAF],
      [CHR 0xE2, CHR 0x81, CHR 0x9F], [CHR 0xE3, CHR 0x80, CHR 0x80],
      [CHR 0xEF, CHR 0xBB, CHR 0xBF]]"

definition leading_space :: "string \<Rightarrow> nat" where
  \<comment> \<open>the number of bytes of the white space character a string starts with, or 0\<close>
  "leading_space s =
     (case find (\<lambda>w. startsWith w s) js_white_space of None \<Rightarrow> 0 | Some w \<Rightarrow> length w)"

definition trailing_space :: "string \<Rightarrow> nat" where
  "trailing_space s =
     (case find (\<lambda>w. endsWith w s) js_white_space of None \<Rightarrow> 0 | Some w \<Rightarrow> length w)"

function trim_start :: "string \<Rightarrow> string" where
  "trim_start s =
     (if s = [] \<or> leading_space s = 0 then s else trim_start (drop (leading_space s) s))"
  by pat_completeness auto
termination
  by (relation "measure length") auto

function trim_end :: "string \<Rightarrow> string" where
  "trim_end s =
     (if s = [] \<or> trailing_space s = 0 then s
      else trim_end (take (length s - trailing_space s) s))"
  by pat_completeness auto
termination
  by (relation "measure length") auto

declare trim_start.simps [simp del] trim_end.simps [simp del]

definition js_trim :: "string \<Rightarrow> string" where
  \<comment> \<open>\<open>s.trim()\<close>\<close>
  "js_trim s = trim_end (trim_start s)"

text \<open>The decimal digits of a number, as a template literal prints it.\<close>

function nat_to_string :: "nat \<Rightarrow> string" where
  "nat_to_string n =
     (if n < 10 then [char_of (48 + n)]
      else nat_to_string (n div 10) @ [char_of (48 + n mod 10)])"
  by pat_completeness auto
termination
  by (relation "measure id") auto

declare nat_to_string.simps [simp del]

subsection \<open>The literals of the source that are not ASCII\<close>

definition txt_no_input :: string where \<comment> \<open>console.error text of askChatGPT, line 275\<close>
  "txt_no_input = [CHR 0xE6, CHR 0x89, CHR 0xBE, CHR 0xE4, CHR 0xB8, CHR 0x8D, CHR 0xE5,
     CHR 0x88, CHR 0xB0, CHR 0xE8, CHR 0xBE, CHR 0x93, CHR 0xE5, CHR 0x85, CHR 0xA5,
     CHR 0xE6, CHR 0xA1, CHR 0x86]"

definition txt_enter_content :: string where \<comment> \<open>warning text, line 283\<close>
  "txt_enter_content = [CHR 0xE8, CHR 0xAF, CHR 0xB7, CHR 0xE8, CHR 0xBE, CHR 0x93,
     CHR 0xE5, CHR 0x85, CHR 0xA5, CHR 0xE5, CHR 0x86, CHR 0x85, CHR 0xE5, CHR 0xAE,
     CHR 0xB9]"

definition txt_sending :: string where \<comment> \<open>label of the send button while a request runs, line 295\<close>
  "txt_sending = [CHR 0xE5, CHR 0x8F, CHR 0x91, CHR 0xE9, CHR 0x80, CHR 0x81, CHR 0xE4,
     CHR 0xB8, CHR 0xAD, CHR 0x2E, CHR 0x2E, CHR 0x2E]"

definition txt_send :: string where \<comment> \<open>label of the idle send button, line 398\<close>
  "txt_send = [CHR 0xE5, CHR 0x8F, CHR 0x91, CHR 0xE9, CHR 0x80, CHR 0x81]"

definition txt_request_failed :: string where \<comment> \<open>console.error label, line 382\<close>
  "txt_request_failed = [CHR 0xE8, CHR 0xAF, CHR 0xB7, CHR 0xE6, CHR 0xB1, CHR 0x82,
     CHR 0xE5, CHR 0xA4, CHR 0xB1, CHR 0xE8, CHR 0xB4, CHR 0xA5, CHR 0x3A]"

definition txt_request_failed_msg :: string where \<comment> \<open>prefix of the error notification, line 391\<close>
  "txt_request_failed_msg = [CHR 0xE8, CHR 0xAF, CHR 0xB7, CHR 0xE6, CHR 0xB1, CHR 0x82,
     CHR 0xE5, CHR 0xA4, CHR 0xB1, CHR 0xE8, CHR 0xB4, CHR 0xA5, CHR 0x3A, CHR 0x20]"

definition txt_parse_failed :: string where \<comment> \<open>console.warn label, line 375\<close>
  "txt_parse_failed = [CHR 0xE8, CHR 0xA7, CHR 0xA3, CHR 0xE6, CHR 0x9E, CHR 0x90,
     CHR 0x4A, CHR 0x53, CHR 0x4F, CHR 0x4E, CHR 0xE5, CHR 0xA4, CHR 0xB1, CHR 0xE8,
     CHR 0xB4, CHR 0xA5, CHR 0x3A]"

definition txt_you :: string where \<comment> \<open>header of a user message, line 159\<close>
  "txt_you = [CHR 0xE4, CHR 0xBD, CHR 0xA0, CHR 0xEF, CHR 0xBC, CHR 0x9A]"

definition txt_ai :: string where \<comment> \<open>header of any other message, line 159\<close>
  "txt_ai = [CHR 0x41, CHR 0x49, CHR 0xEF, CHR 0xBC, CHR 0x9A]"

definition txt_extract_failed :: string where \<comment> \<open>message of the extraction error, lines 202, 217, 560\<close>
  "txt_extract_failed = [CHR 0xE6, CHR 0x9C, CHR 0xAA, CHR 0xE8, CHR 0x83, CHR 0xBD,
     CHR 0xE6, CHR 0x8F, CHR 0x90, CHR 0xE5, CHR 0x8F, CHR 0x96, CHR 0xE6, CHR 0xAD,
     CHR 0xA3, CHR 0xE6, CHR 0x96, CHR 0x87, CHR 0xE5, CHR 0x86, CHR 0x85, CHR 0xE5,
     CHR 0xAE, CHR 0xB9]"

definition txt_analyse :: string where \<comment> \<open>line 220\<close>
  "txt_analyse = [CHR 0xE5, CHR 0x88, CHR 0x86, CHR 0xE6, CHR 0x9E, CHR 0x90, CHR 0xE7,
     CHR 0xBD, CHR 0x91, CHR 0xE9, CHR 0xA1, CHR 0xB5, CHR 0xE5, CHR 0x86, CHR 0x85,
     CHR 0xE5, CHR 0xAE, CHR 0xB9, CHR 0xEF, CHR 0xBC, CHR 0x9A]"

definition txt_page_content :: string where \<comment> \<open>line 259\<close>
  "txt_page_content = [CHR 0xE7, CHR 0xBD, CHR 0x91, CHR 0xE9, CHR 0xA1, CHR 0xB5,
     CHR 0xE5, CHR 0x86, CHR 0x85, CHR 0xE5, CHR 0xAE, CHR 0xB9, CHR 0xEF, CHR 0xBC,
     CHR 0x9A]"

definition txt_contains :: string where \<comment> \<open>lines 224, 235\<close>
  "txt_contains = [CHR 0xE5, CHR 0x8C, CHR 0x85, CHR 0xE5, CHR 0x90, CHR 0xAB, CHR 0x20]"

definition txt_images :: string where \<comment> \<open>lines 224, 229\<close>
  "txt_images = [CHR 0x20, CHR 0xE5, CHR 0xBC, CHR 0xA0, CHR 0xE5, CHR 0x9B, CHR 0xBE,
     CHR 0xE7, CHR 0x89, CHR 0x87]"

definition txt_image :: string where \<comment> \<open>line 226\<close>
  "txt_image = [CHR 0xE5, CHR 0x9B, CHR 0xBE, CHR 0xE7, CHR 0x89, CHR 0x87]"

definition txt_untitled :: string where \<comment> \<open>lines 226, 238, 239\<close>
  "txt_untitled = [CHR 0xE6, CHR 0x97, CHR 0xA0, CHR 0xE6, CHR 0xA0, CHR 0x87, CHR 0xE9,
     CHR 0xA2, CHR 0x98]"

definition txt_more :: string where \<comment> \<open>line 229\<close>
  "txt_more = [CHR 0x2E, CHR 0x2E, CHR 0x2E, CHR 0xE8, CHR 0xBF, CHR 0x98, CHR 0xE6,
     CHR 0x9C, CHR 0x89, CHR 0x20]"

definition txt_videos :: string where \<comment> \<open>line 235\<close>
  "txt_videos = [CHR 0x20, CHR 0xE4, CHR 0xB8, CHR 0xAA, CHR 0xE8, CHR 0xA7, CHR 0x86,
     CHR 0xE9, CHR 0xA2, CHR 0x91]"

definition txt_video :: string where \<comment> \<open>lines 238, 239\<close>
  "txt_video = [CHR 0xE8, CHR 0xA7, CHR 0x86, CHR 0xE9, CHR 0xA2, CHR 0x91]"

definition txt_duration :: string where \<comment> \<open>line 238\<close>
  "txt_duration = [CHR 0x20, CHR 0x28, CHR 0xE6, CHR 0x97, CHR 0xB6, CHR 0xE9, CHR 0x95,
     CHR 0xBF, CHR 0x3A, CHR 0x20]"

definition txt_min :: string where \<comment> \<open>line 238\<close>
  "txt_min = [CHR 0xE5, CHR 0x88, CHR 0x86]"

definition txt_sec :: string where \<comment> \<open>line 238\<close>
  "txt_sec = [CHR 0xE7, CHR 0xA7, CHR 0x92, CHR 0x29]"

definition txt_embed :: string where \<comment> \<open>line 239\<close>
  "txt_embed = [CHR 0x20, CHR 0xE5, CHR 0xB9, CHR 0xB3, CHR 0xE5, CHR 0x8F, CHR 0xB0,
     CHR 0xE5, CHR 0xB5, CHR 0x8C, CHR 0xE5, CHR 0x85, CHR 0xA5, CHR 0xE8, CHR 0xA7,
     CHR 0x86, CHR 0xE9, CHR 0xA2, CHR 0x91, CHR 0x20, CHR 0x2D, CHR 0x20]"

section \<open>JSON values and the host\<close>

text \<open>
  The values \<open>JSON.parse\<close> returns. A number is represented by the text \<open>String(n)\<close>
  renders it to, which determines it up to the sign of zero; an object by its members in
  source order, where a later member of the same name wins.
\<close>

datatype json =
    JNull
  | JBool bool
  | JNum string
  | JStr string
  | JArr "json list"
  | JObj "(string \<times> json) list"

text \<open>
  What the page's environment provides and this repository does not define:
  \<open>JSON.parse\<close> (\<open>None\<close> when it throws a SyntaxError) and the library \<open>marked\<close>
  (\<open>None\<close> when the global is not defined, else its \<open>parse\<close> function).
\<close>

record host =
  JSON_parse :: "string \<Rightarrow> json option"
  marked :: "(string \<Rightarrow> string) option"

definition js_truthy :: "json \<Rightarrow> bool" where
  "js_truthy v =
     (case v of JNull \<Rightarrow> False | JBool b \<Rightarrow> b | JNum n \<Rightarrow> n \<noteq> ''0''
      | JStr s \<Rightarrow> s \<noteq> [] | JArr _ \<Rightarrow> True | JObj _ \<Rightarrow> True)"

definition join :: "string \<Rightarrow> string list \<Rightarrow> string" where
  \<comment> \<open>\<open>xs.join(sep)\<close>\<close>
  "join sep xs = (case xs of [] \<Rightarrow> [] | x # r \<Rightarrow> x @ concat (map (\<lambda>y. sep @ y) r))"

text \<open>
  \<open>String(v)\<close>, the conversion that \<open>+=\<close> on a string applies to its right operand.
  An array is joined with commas, \<open>null\<close> elements giving the empty string; an object
  gives \<open>[object Object]\<close>, unless it has a member \<open>toString\<close> of its own, which is
  not callable and makes the conversion throw a TypeError (\<open>None\<close>).
\<close>

fun js_to_string :: "json \<Rightarrow> string option" where
  "js_to_string JNull = Some ''null''"
| "js_to_string (JBool b) = Some (if b then ''true'' else ''false'')"
| "js_to_string (JNum n) = Some n"
| "js_to_string (JStr s) = Some s"
| "js_to_string (JArr xs) =
     map_option (join '','')
       (those (map (\<lambda>x. if x = JNull then Some [] else js_to_string x) xs))"
| "js_to_string (JObj kvs) =
     (if ''toString'' \<in> set (map fst kvs) then None else Some ''[object Object]'')"

text \<open>
  \<open>v.name\<close> for the names the source reads (\<open>choices\<close>, \<open>delta\<close>, \<open>content\<close>), which
  no prototype defines: an own member of an object, undefined (\<open>None\<close>) on every other
  value. Reading a property of \<open>null\<close> throws; the callers below test for it first.
\<close>

definition property :: "json \<Rightarrow> string \<Rightarrow> json option" where
  "property v name = (case v of JObj kvs \<Rightarrow> map_of (rev kvs) name | _ \<Rightarrow> None)"

text \<open>
  \<open>v[0]\<close>: the first element of an array, the member \<open>"0"\<close> of an object, the first
  character of a string (the source only tests it for truthiness, so the model keeps the
  first byte).
\<close>

definition element0 :: "json \<Rightarrow> json option" where
  "element0 v =
     (case v of
        JArr xs \<Rightarrow> (case xs of [] \<Rightarrow> None | x # _ \<Rightarrow> Some x)
      | JObj kvs \<Rightarrow> map_of (rev kvs) ''0''
      | JStr s \<Rightarrow> (if s = [] then None else Some (JStr (take 1 s)))
      | _ \<Rightarrow> None)"

section \<open>The chat session and the page\<close>

record message =
  role :: string
  content :: string

record button =
  disabled :: bool
  textContent :: string

text \<open>What \<open>renderMessages\<close> builds for one message: the class of the message element, the text
  of its header and its content, set either as markup or as text.\<close>

datatype content_node = InnerHTML string | TextNode string

record rendered =
  className :: string
  header :: string
  body :: content_node

datatype error = Error (error_message: string) | TypeError (error_message: string)

text \<open>What the script writes to the console. The exception that \<open>console.warn\<close> prints
  after its label is left out.\<close>

datatype console_entry =
    Console_log string
  | Console_log_messages "message list"
  | Console_warn string
  | Console_error string
  | Console_error_with string error

text \<open>
  An element of the document: its id, if it has one, and its child elements. The document
  is the forest of its elements in tree order; \<open>document.body.appendChild\<close> adds a tree at
  the end.
\<close>

datatype element = Element (el_id: "string option") (el_children: "element list")

text \<open>
  The state the functions of the source read and write. \<open>loading\<close> and \<open>messages\<close> are
  the fields of \<open>chatState\<close> (\<open>apiKey\<close> is a constant and \<open>currentIndex\<close> is never
  used). \<open>userInput\<close>, \<open>sendButton\<close> and \<open>messagesContainer\<close> are what
  \<open>document.getElementById\<close> finds under these ids: \<open>None\<close> when there is no such
  element, else the value of the text area, the state of the button, and the rendered
  messages in the container. Scroll positions are not modelled.
\<close>

record world =
  loading :: bool
  messages :: "message list"
  userInput :: "string option"
  sendButton :: "button option"
  messagesContainer :: "rendered list option"
  console :: "console_entry list"
  document :: "element list"
  body_classes :: "string list"

definition initial_messages :: "message list" where
  \<comment> \<open>\<open>chatState.messages\<close> as the script declares it, lines 35-40\<close>
  "initial_messages = [\<lparr>role = ''system'', content = ''You are a helpful assistant.''\<rparr>]"

definition console_add :: "console_entry \<Rightarrow> world \<Rightarrow> world" where
  "console_add e w = w\<lparr>console := console w @ [e]\<rparr>"

definition showMessage :: "string \<Rightarrow> string \<Rightarrow> world \<Rightarrow> world" where
  "showMessage type msg w = console_add (Console_log (''['' @ type @ ''] '' @ msg)) w"

subsection \<open>renderMessages\<close>

definition formatContent :: "host \<Rightarrow> string \<Rightarrow> string" where
  "formatContent h c = (case marked h of Some parse \<Rightarrow> parse c | None \<Rightarrow> c)"

definition render_item :: "host \<Rightarrow> message \<Rightarrow> rendered" where
  "render_item h item =
     \<lparr>className = ''message '' @ (if role item = ''user'' then ''user'' else ''assistant''),
      header = (if role item = ''user'' then txt_you else txt_ai),
      body = (if role item = ''assistant'' then InnerHTML (formatContent h (content item))
              else TextNode (content item))\<rparr>"

text \<open>The \<open>forEach\<close> of \<open>renderMessages\<close>, with the index it passes to the callback.\<close>

fun render_from :: "host \<Rightarrow> nat \<Rightarrow> message list \<Rightarrow> rendered list" where
  "render_from h index [] = []"
| "render_from h index (item # items) =
     (if index = 0 then render_from h (Suc index) items
      else render_item h item # render_from h (Suc index) items)"

definition renderMessages :: "host \<Rightarrow> world \<Rightarrow> world" where
  "renderMessages h w =
     (case messagesContainer w of
        None \<Rightarrow> w
      | Some _ \<Rightarrow> w\<lparr>messagesContainer := Some (render_from h 0 (messages w))\<rparr>)"

subsection \<open>The streaming loop of askChatGPT\<close>

text \<open>What the body of the \<open>for\<close> loop does with one line: nothing, a delta fragment to add,
  or an exception caught by the inner \<open>try\<close>.\<close>

datatype line_result = Ignored | Delta string | Caught

definition delta_content :: "json \<Rightarrow> line_result" where
  \<comment> \<open>lines 365-369; \<open>data.choices\<close> throws a TypeError when \<open>data\<close> is \<open>null\<close>\<close>
  "delta_content data =
     (if data = JNull then Caught
      else (case property data ''choices'' of
        None \<Rightarrow> Ignored
      | Some choices \<Rightarrow>
          if \<not> js_truthy choices then Ignored
          else (case element0 choices of
            None \<Rightarrow> Ignored
          | Some choice \<Rightarrow>
              if \<not> js_truthy choice then Ignored
              else (case property choice ''delta'' of
                None \<Rightarrow> Ignored
              | Some delta \<Rightarrow>
                  if \<not> js_truthy delta then Ignored
                  else (case property delta ''content'' of
                    None \<Rightarrow> Ignored
                  | Some c \<Rightarrow>
                      if \<not> js_truthy c then Ignored
                      else (case js_to_string c of
                              None \<Rightarrow> Caught
                            | Some s \<Rightarrow> Delta s))))))"

definition decode_line :: "host \<Rightarrow> string \<Rightarrow> line_result" where
  "decode_line h line =
     (if js_trim line = [] then Ignored
      else if line = ''data: [DONE]'' then Ignored
      else if startsWith ''data: '' line then
        (case JSON_parse h (drop 6 line) of
           None \<Rightarrow> Caught
         | Some data \<Rightarrow> delta_content data)
      else Ignored)"

text \<open>
  One line in the state of the loop: the accumulated content and the world. A fragment is
  added to the accumulated content, which replaces the content of the last message, and the
  list is rendered again. With no message to write to, the assignment of line 370 throws
  inside the \<open>try\<close> and is caught like a parse failure.
\<close>

definition set_last_content :: "string \<Rightarrow> message list \<Rightarrow> message list" where
  "set_last_content c ms = butlast ms @ [(last ms)\<lparr>content := c\<rparr>]"

definition process_line :: "host \<Rightarrow> string \<times> world \<Rightarrow> string \<Rightarrow> string \<times> world" where
  "process_line h st line =
     (case st of (acc, w) \<Rightarrow>
        (case decode_line h line of
           Ignored \<Rightarrow> (acc, w)
         | Caught \<Rightarrow> (acc, console_add (Console_warn txt_parse_failed) w)
         | Delta c \<Rightarrow>
             if messages w = [] then (acc @ c, console_add (Console_warn txt_parse_failed) w)
             else (acc @ c,
                   renderMessages h (w\<lparr>messages := set_last_content (acc @ c) (messages w)\<rparr>))))"

text \<open>
  The body of the response: the decoded text of each chunk that \<open>reader.read()\<close> delivers,
  and how the stream ends: with \<open>done\<close>, with a read that rejects, or with a read that
  never settles. A response without a body, on which \<open>getReader\<close> throws, behaves as a
  stream whose first read rejects.
\<close>

datatype stream_end = Stream_done | Stream_error string | Stream_stalled

text \<open>
  How a piece of asynchronous code ends: it completes normally, it throws, or it waits for
  ever on a promise that never settles. Each carries the world it leaves.
\<close>

datatype outcome = Completed world | Thrown error world | Waiting world

text \<open>
  The \<open>while (true)\<close> loop, lines 345-379, with the carry-over buffer and the accumulated
  content.
\<close>

fun read_loop ::
  "host \<Rightarrow> string list \<Rightarrow> stream_end \<Rightarrow> string \<Rightarrow> string \<times> world \<Rightarrow> outcome"
where
  "read_loop h [] e buffer (acc, w) =
     (case e of
        Stream_done \<Rightarrow> Completed w
      | Stream_error m \<Rightarrow> Thrown (Error m) w
      | Stream_stalled \<Rightarrow> Waiting w)"
| "read_loop h (chunk # chunks) e buffer (acc, w) =
     (case js_pop (split_nl (buffer @ chunk)) of (popped, lines) \<Rightarrow>
        read_loop h chunks e (case popped of None \<Rightarrow> [] | Some l \<Rightarrow> l)
          (foldl (process_line h) (acc, w) lines))"

subsection \<open>askChatGPT\<close>

text \<open>
  What \<open>fetch\<close> does with the request: it rejects, it never settles, or it resolves to a
  response with its \<open>ok\<close> flag, its status and its body. The request itself (the history,
  the key, the fixed model and parameters) only reaches the server; the theorems hold for
  every outcome.
\<close>

datatype fetch_result =
    Fetch_rejected string
  | Fetch_pending
  | Fetch_response bool nat "string list" stream_end

definition push_message :: "message \<Rightarrow> world \<Rightarrow> world" where
  "push_message m w = w\<lparr>messages := messages w @ [m]\<rparr>"

definition try_block :: "host \<Rightarrow> fetch_result \<Rightarrow> world \<Rightarrow> outcome" where
  \<comment> \<open>lines 310-379\<close>
  "try_block h r w =
     (case r of
        Fetch_pending \<Rightarrow> Waiting w
      | Fetch_rejected m \<Rightarrow> Thrown (TypeError m) w
      | Fetch_response ok status chunks e \<Rightarrow>
          if \<not> ok then Thrown (Error (''HTTP '' @ nat_to_string status)) w
          else read_loop h chunks e [] ([],
                 renderMessages h (push_message \<lparr>role = ''assistant'', content = []\<rparr> w)))"

definition catch_block :: "host \<Rightarrow> string \<Rightarrow> error \<Rightarrow> world \<Rightarrow> world" where
  \<comment> \<open>lines 381-391\<close>
  "catch_block h inputText err w =
     (let w1 = console_add (Console_error_with txt_request_failed err) w;
          w2 = w1\<lparr>messages := snd (js_pop (messages w1))\<rparr>;
          w3 = renderMessages h w2;
          w4 = w3\<lparr>userInput := Some inputText\<rparr>
      in showMessage ''error'' (txt_request_failed_msg @ error_message err) w4)"

definition finally_block :: "world \<Rightarrow> world" where
  \<comment> \<open>lines 392-402\<close>
  "finally_block w =
     (let w1 = w\<lparr>loading := False\<rparr>
      in case sendButton w1 of
           None \<Rightarrow> w1
         | Some b \<Rightarrow> w1\<lparr>sendButton := Some (b\<lparr>disabled := False, textContent := txt_send\<rparr>)\<rparr>)"

definition begin_send :: "host \<Rightarrow> string \<Rightarrow> world \<Rightarrow> world" where
  \<comment> \<open>lines 290-308: what \<open>askChatGPT\<close> does between its guards and its \<open>try\<close>\<close>
  "begin_send h inputText w =
     (let w1 = w\<lparr>loading := True\<rparr>;
          w2 = (case sendButton w1 of
                  None \<Rightarrow> w1
                | Some b \<Rightarrow>
                    w1\<lparr>sendButton := Some (b\<lparr>disabled := True, textContent := txt_sending\<rparr>)\<rparr>);
          w3 = push_message \<lparr>role = ''user'', content = inputText\<rparr> w2;
          w4 = renderMessages h w3;
          w5 = console_add (Console_log_messages (messages w4)) w4
      in w5\<lparr>userInput := Some []\<rparr>)"

text \<open>
  \<open>askChatGPT\<close>. It catches every exception of its \<open>try\<close> block, so it either
  completes or waits for ever, in the world the pending request or read left.
\<close>

datatype call_result = Returned world | Never_returns world

definition askChatGPT :: "host \<Rightarrow> fetch_result \<Rightarrow> world \<Rightarrow> call_result" where
  "askChatGPT h r w =
     (case userInput w of
        None \<Rightarrow> Returned (console_add (Console_error txt_no_input) w)
      | Some v \<Rightarrow>
          let inputText = js_trim v in
          if inputText = [] then Returned (showMessage ''warning'' txt_enter_content w)
          else if loading w then Returned w
          else
            (case try_block h r (begin_send h inputText w) of
               Waiting w' \<Rightarrow> Never_returns w'
             | Completed w' \<Rightarrow> Returned (finally_block w')
             | Thrown err w' \<Rightarrow>
                 Returned (finally_block (catch_block h inputText err w'))))"


section \<open>Reader settings\<close>

definition DEFAULT_SETTINGS :: "(string \<times> json) list" where
  "DEFAULT_SETTINGS =
     [(''fontSize'', JNum ''18''),
      (''lineHeight'', JNum ''1.8''),
      (''fontFamily'',
         JStr (''-apple-system, BlinkMacSystemFont, '' @ [CHR 0x22] @ ''Segoe UI'' @ [CHR 0x22]
               @ '', Roboto, Helvetica, Arial, sans-serif;'')),
      (''backgroundColor'', JStr ''#ffffff''),
      (''textColor'', JStr ''#1f2933''),
      (''maxWidth'', JStr ''1000px''),
      (''darkMode'', JBool False)]"

text \<open>
  The own enumerable properties that \<open>Object.assign\<close> copies from a source: the members of
  an object, the elements of an array under their indices, the characters of a string under
  theirs (bytes in this model, which is exact for ASCII text), nothing from any other
  value.
\<close>

definition own_properties :: "json \<Rightarrow> (string \<rightharpoonup> json)" where
  "own_properties v =
     (case v of
        JObj kvs \<Rightarrow> map_of (rev kvs)
      | JArr xs \<Rightarrow> map_of (zip (map nat_to_string [0..<length xs]) xs)
      | JStr s \<Rightarrow> map_of (zip (map nat_to_string [0..<length s]) (map (\<lambda>c. JStr [c]) s))
      | _ \<Rightarrow> Map.empty)"

text \<open>
  \<open>Object.assign(target, source)\<close> on the own properties of the target: each own
  property of the source is assigned to the target. An assignment to \<open>__proto__\<close> on a
  target without such a property of its own goes to the setter of \<open>Object.prototype\<close>,
  which may change the prototype of the target and creates no property.
\<close>

definition object_assign :: "(string \<rightharpoonup> json) \<Rightarrow> json \<Rightarrow> (string \<rightharpoonup> json)" where
  "object_assign target source =
     (\<lambda>name. if name = ''__proto__'' \<and> target ''__proto__'' = None then None
             else (target ++ own_properties source) name)"

text \<open>
  \<open>fetchReaderSettings\<close>, given what \<open>chrome.storage.sync\<close> holds under the key
  \<open>readerSettings\<close> (\<open>None\<close> when the key is absent): the object that
  \<open>Object.assign({}, DEFAULT_SETTINGS, data.readerSettings || {})\<close> builds, as the map
  from the names of its own properties to their values.
\<close>

definition fetchReaderSettings :: "json option \<Rightarrow> (string \<rightharpoonup> json)" where
  "fetchReaderSettings readerSettings =
     object_assign (object_assign Map.empty (JObj DEFAULT_SETTINGS))
       (case readerSettings of
          None \<Rightarrow> JObj []
        | Some v \<Rightarrow> if js_truthy v then v else JObj [])"

section \<open>The reader overlay\<close>

definition OVERLAY_ID :: string where
  "OVERLAY_ID = ''reader-overlay''"

definition BODY_ACTIVE_CLASS :: string where
  "BODY_ACTIVE_CLASS = ''reader-mode-active''"

text \<open>\<open>document.getElementById\<close>: the first element with the id, in tree order.\<close>

fun getElementById :: "string \<Rightarrow> element list \<Rightarrow> element option" where
  "getElementById i [] = None"
| "getElementById i (Element j cs # es) =
     (if j = Some i then Some (Element j cs)
      else (case getElementById i cs of
              Some e \<Rightarrow> Some e
            | None \<Rightarrow> getElementById i es))"

text \<open>\<open>e.remove()\<close> for the element that \<open>getElementById i\<close> returns: it leaves the tree
  with its descendants.\<close>

fun remove_element :: "string \<Rightarrow> element list \<Rightarrow> element list" where
  "remove_element i [] = []"
| "remove_element i (Element j cs # es) =
     (if j = Some i then es
      else if getElementById i cs \<noteq> None then Element j (remove_element i cs) # es
      else Element j cs # remove_element i es)"

text \<open>The ids of all elements of a forest, in tree order.\<close>

fun element_ids :: "element list \<Rightarrow> string list" where
  "element_ids [] = []"
| "element_ids (Element j cs # es) =
     (case j of None \<Rightarrow> [] | Some i \<Rightarrow> [i]) @ element_ids cs @ element_ids es"

definition mounted :: "string \<Rightarrow> world \<Rightarrow> nat" where
  \<comment> \<open>how many elements of the document have the id\<close>
  "mounted i w = count_list (element_ids (document w)) i"

definition classList_add :: "string \<Rightarrow> string list \<Rightarrow> string list" where
  "classList_add c cs = (if c \<in> set cs then cs else cs @ [c])"

definition classList_remove :: "string \<Rightarrow> string list \<Rightarrow> string list" where
  "classList_remove c cs = removeAll c cs"

definition isReaderActive :: "world \<Rightarrow> bool" where
  "isReaderActive w = (getElementById OVERLAY_ID (document w) \<noteq> None)"

text \<open>
  \<open>removeReader\<close>. The three controls of the chat are elements of the overlay (lines
  795-824; the model takes it that the page itself does not use their ids), so they leave
  the document with it.
\<close>

definition removeReader :: "world \<Rightarrow> world" where
  "removeReader w =
     (let w1 = (case getElementById OVERLAY_ID (document w) of
                  None \<Rightarrow> w
                | Some overlay \<Rightarrow>
                    w\<lparr>document := remove_element OVERLAY_ID (document w),
                      userInput := None, sendButton := None, messagesContainer := None\<rparr>)
      in w1\<lparr>body_classes := classList_remove BODY_ACTIVE_CLASS (body_classes w1)\<rparr>)"

subsection \<open>openReader\<close>

record image =
  alt :: string
  title :: string

record video =
  video_type :: string
  video_title :: string
  duration :: nat

text \<open>
  The result of \<open>ReaderAbility.extractFromDocument\<close>, with the fields the source reads in
  the functions modelled here. The \<open>alt\<close> and the titles are the empty string when they
  are missing; durations are whole seconds.
\<close>

record article =
  article_content :: string
  article_textContent :: string
  images :: "image list"
  videos :: "video list"

text \<open>
  What a call of \<open>openReader\<close> finds around it: the result of the extraction (\<open>None\<close>
  when it is \<open>null\<close>), the stored settings, and the elements that the article's markup
  puts under the content container after the rewriting passes of lines 612-781 (these
  passes add wrappers without ids and delete nodes, so they introduce no id).
\<close>

record page_env =
  extraction :: "article option"
  readerSettings :: "json option"
  content_elements :: "element list"

definition plain :: "element list \<Rightarrow> element" where
  \<comment> \<open>an element without id\<close>
  "plain cs = Element None cs"

definition leaf :: "string \<Rightarrow> element" where
  "leaf i = Element (Some i) []"

text \<open>The subtree that lines 572-837 build under the overlay.\<close>

definition overlay_children :: "element list \<Rightarrow> element list" where
  "overlay_children content_els =
     [plain [plain [], plain [plain [], plain [], plain [], plain []]],
      plain
        [plain [plain [], plain [], plain content_els],
         plain [],
         plain
           [Element (Some ''tab1'')
              [plain [plain []], plain [plain []], leaf ''messagesContainer'',
               plain [leaf ''userInput'', leaf ''sendButton'']],
            Element (Some ''tab2'')
              [plain [plain []], leaf ''notebookTextarea'',
               plain [leaf ''saveNotebookBtn'', leaf ''exportNotebookBtn'']]]],
      plain []]"

definition fresh_button :: button where
  \<comment> \<open>the send button as the markup of lines 809-811 creates it\<close>
  "fresh_button =
     \<lparr>disabled = False,
      textContent = [newline] @ replicate 8 CHR '' '' @ txt_send @ [newline] @ replicate 6 CHR '' ''\<rparr>"

text \<open>
  Lines 572-839: the new overlay is built and appended to the body, which gets the class
  of the active reader; the controls of the chat are the fresh ones of the overlay.
\<close>

definition mount_overlay :: "page_env \<Rightarrow> world \<Rightarrow> world" where
  "mount_overlay env w =
     (let overlay = Element (Some OVERLAY_ID) (overlay_children (content_elements env))
      in w\<lparr>document := document w @ [overlay],
           body_classes := classList_add BODY_ACTIVE_CLASS (body_classes w),
           userInput := Some [], sendButton := Some fresh_button,
           messagesContainer := Some []\<rparr>)"

text \<open>
  \<open>openReader\<close>, up to the point where the overlay is mounted; what follows binds event
  handlers and schedules \<open>initializeChatInterface\<close>, which run in later events. It throws
  when the extraction yields nothing, and returns the markup of the article. Between
  \<open>removeReader\<close> and the mounting there is no \<open>await\<close>: no other handler runs
  between them.
\<close>

definition openReader :: "page_env \<Rightarrow> world \<Rightarrow> (error + string) \<times> world" where
  "openReader env w =
     (case extraction env of
        None \<Rightarrow> (Inl (Error txt_extract_failed), w)
      | Some article \<Rightarrow>
          let settings = fetchReaderSettings (readerSettings env);
              w1 = removeReader w
          in (Inr (article_content article), mount_overlay env w1))"

subsection \<open>toggleReader and the message listener\<close>

text \<open>What a function hands back: a plain value, or a promise that is fulfilled or rejected.\<close>

datatype 'a handed_back = Value 'a | Fulfilled 'a | Rejected error

text \<open>\<open>toggleReader\<close>; the state object \<open>{active: b}\<close> is its flag.\<close>

definition toggleReader :: "page_env \<Rightarrow> world \<Rightarrow> bool handed_back \<times> world" where
  "toggleReader env w =
     (if isReaderActive w then (Value False, removeReader w)
      else (case openReader env w of
              (Inr _, w') \<Rightarrow> (Fulfilled True, w')
            | (Inl err, w') \<Rightarrow>
                (Rejected err,
                 removeReader (console_add (Console_error_with ''Reader mode error:'' err) w'))))"

record response =
  success :: bool
  active :: "bool option"
  error :: "string option"

text \<open>
  The listener of \<open>chrome.runtime.onMessage\<close> for a message with the given action: the
  value it returns with the response it sends, if any, or the exception that leaves it.
  Calling \<open>then\<close> on a value that is not a promise throws a TypeError.
\<close>

datatype listener_result = Listener_returned bool "response option" | Listener_threw error

definition onMessage :: "string \<Rightarrow> page_env \<Rightarrow> world \<Rightarrow> listener_result \<times> world" where
  "onMessage action env w =
     (if action = ''toggle-reader'' then
        (case toggleReader env w of
           (Value _, w') \<Rightarrow>
             (Listener_threw (TypeError ''toggleReader(...).then is not a function''), w')
         | (Fulfilled state, w') \<Rightarrow>
             (Listener_returned True
                (Some \<lparr>success = True, active = Some state, error = None\<rparr>), w')
         | (Rejected err, w') \<Rightarrow>
             (Listener_returned True
                (Some \<lparr>success = False, active = None, error = Some (error_message err)\<rparr>), w'))
      else if action = ''get-reader-state'' then
        (Listener_returned True
           (Some \<lparr>success = True, active = Some (isReaderActive w), error = None\<rparr>), w)
      else if action = ''close-reader'' then
        (Listener_returned True (Some \<lparr>success = True, active = Some False, error = None\<rparr>),
         removeReader w)
      else (Listener_returned False None, w))"

section \<open>querycontent\<close>

definition or_else :: "string \<Rightarrow> string \<Rightarrow> string" where
  \<comment> \<open>\<open>a || b\<close> on strings\<close>
  "or_else a b = (if a \<noteq> [] then a else b)"

definition image_lines :: "image list \<Rightarrow> string" where
  \<comment> \<open>lines 223-231\<close>
  "image_lines imgs =
     (if imgs = [] then []
      else [newline, newline] @ txt_contains @ nat_to_string (length imgs) @ txt_images
           @ concat (map (\<lambda>(index, img).
                 [newline] @ txt_image @ nat_to_string (index + 1) @ '': ''
                 @ or_else (alt img) (or_else (title img) txt_untitled))
               (enumerate 0 (take 5 imgs)))
           @ (if length imgs > 5
              then [newline] @ txt_more @ nat_to_string (length imgs - 5) @ txt_images
              else []))"

definition videoInfo :: "nat \<Rightarrow> video \<Rightarrow> string" where
  \<comment> \<open>lines 237-239\<close>
  "videoInfo index v =
     (if video_type v = ''video''
      then txt_video @ nat_to_string (index + 1) @ '': '' @ or_else (video_title v) txt_untitled
           @ (if duration v \<noteq> 0
              then txt_duration @ nat_to_string (duration v div 60) @ txt_min
                   @ nat_to_string (duration v mod 60) @ txt_sec
              else [])
      else txt_video @ nat_to_string (index + 1) @ '': '' @ video_type v @ txt_embed
           @ or_else (video_title v) txt_untitled)"

definition video_lines :: "video list \<Rightarrow> string" where
  \<comment> \<open>lines 234-242\<close>
  "video_lines vs =
     (if vs = [] then []
      else [newline, newline] @ txt_contains @ nat_to_string (length vs) @ txt_videos
           @ concat (map (\<lambda>(index, v). [newline] @ videoInfo index v) (enumerate 0 vs)))"

text \<open>\<open>querycontent\<close>: it completes or throws; it never waits on the network.\<close>

definition querycontent :: "host \<Rightarrow> page_env \<Rightarrow> world \<Rightarrow> outcome" where
  "querycontent h env w =
     (if isReaderActive w then
        (case extraction env of
           None \<Rightarrow> Thrown (Error txt_extract_failed) w
         | Some article \<Rightarrow>
             let cleanText = js_trim (article_textContent article);
                 contentMessage = txt_analyse @ cleanText @ image_lines (images article)
                                  @ video_lines (videos article)
             in Completed (renderMessages h
                  (push_message \<lparr>role = ''user'', content = contentMessage\<rparr> w)))
      else
        (case openReader env w of
           (Inl err, w') \<Rightarrow> Thrown err w'
         | (Inr articleText, w') \<Rightarrow>
             let cleanText = js_trim articleText;
                 w1 = console_add (Console_log cleanText) w'
             in Completed (renderMessages h
                  (push_message \<lparr>role = ''user'', content = txt_page_content @ cleanText\<rparr> w1))))"

section \<open>The states the session can reach\<close>

text \<open>
  The script starts with the declared history. The user types into the input; every
  handler takes the session from one state to the next. A call of \<open>askChatGPT\<close> runs
  in pieces, between which other handlers run: what it does before the request
  (\<open>sending\<close>), the placeholder it pushes when the response arrives (\<open>placeholder\<close>),
  each line of a chunk it has read (\<open>line\<close>), and its end, through the \<open>catch\<close> block
  (\<open>fail\<close>) or not (\<open>finish\<close>); from \<open>sending\<close> to its end \<open>loading\<close> is true. The
  step \<open>ask\<close> is a whole call with no other handler in between; a call that waits for
  ever leaves the state of its last piece.
\<close>

definition world_after :: "outcome \<Rightarrow> world" where
  "world_after out = (case out of Completed w \<Rightarrow> w | Thrown _ w \<Rightarrow> w | Waiting w \<Rightarrow> w)"

definition call_world :: "call_result \<Rightarrow> world" where
  "call_world c = (case c of Returned w \<Rightarrow> w | Never_returns w \<Rightarrow> w)"

inductive reachable :: "world \<Rightarrow> bool" where
  start: "messages w = initial_messages \<Longrightarrow> \<not> loading w \<Longrightarrow> reachable w"
| edit: "reachable w \<Longrightarrow> userInput w = Some v \<Longrightarrow> reachable (w\<lparr>userInput := Some v'\<rparr>)"
| ask: "reachable w \<Longrightarrow> reachable (call_world (askChatGPT h r w))"
| sending: "reachable w \<Longrightarrow> userInput w = Some v \<Longrightarrow> js_trim v \<noteq> [] \<Longrightarrow> \<not> loading w
          \<Longrightarrow> reachable (begin_send h (js_trim v) w)"
| placeholder: "reachable w \<Longrightarrow> loading w
          \<Longrightarrow> reachable (renderMessages h (push_message \<lparr>role = ''assistant'', content = []\<rparr> w))"
| line: "reachable w \<Longrightarrow> loading w \<Longrightarrow> reachable (snd (process_line h (acc, w) l))"
| fail: "reachable w \<Longrightarrow> loading w \<Longrightarrow> reachable (finally_block (catch_block h inputText err w))"
| finish: "reachable w \<Longrightarrow> loading w \<Longrightarrow> reachable (finally_block w)"
| query: "reachable w \<Longrightarrow> reachable (world_after (querycontent h env w))"
| render: "reachable w \<Longrightarrow> reachable (renderMessages h w)"
| message: "reachable w \<Longrightarrow> reachable (snd (onMessage action env w))"
| close: "reachable w \<Longrightarrow> reachable (removeReader w)"


section \<open>A parser for JSON texts\<close>

text \<open>
  The theorems on the stream hold for every function in the place of \<open>JSON.parse\<close>. To run
  the model on concrete streams, \<open>JSON_text\<close> parses the JSON grammar: white space, the
  three literals, strings with their escapes, arrays, objects, and integers of at most 15
  digits (which a double holds exactly and \<open>String\<close> prints as they are). It gives
  \<open>None\<close> on everything else; this is the answer of \<open>JSON.parse\<close> except on numbers
  with a fraction, an exponent or more digits and on escaped surrogates, which it does not
  cover.
\<close>

definition json_space :: "char \<Rightarrow> bool" where
  "json_space c = (c = CHR '' '' \<or> c = CHR 0x09 \<or> c = CHR 0x0A \<or> c = CHR 0x0D)"

definition skip_space :: "string \<Rightarrow> string" where
  "skip_space cs = dropWhile json_space cs"

definition byte :: "char \<Rightarrow> nat" where
  "byte c = of_char c"

definition is_digit :: "char \<Rightarrow> bool" where
  "is_digit c = (48 \<le> byte c \<and> byte c \<le> 57)"

definition hex_value :: "char \<Rightarrow> nat option" where
  "hex_value c =
     (if 48 \<le> byte c \<and> byte c \<le> 57 then Some (byte c - 48)
      else if 97 \<le> byte c \<and> byte c \<le> 102 then Some (byte c - 87)
      else if 65 \<le> byte c \<and> byte c \<le> 70 then Some (byte c - 55)
      else None)"

definition hex4 :: "string \<Rightarrow> nat option" where
  "hex4 cs =
     (case map hex_value (take 4 cs) of
        [Some a, Some b, Some c, Some d] \<Rightarrow> Some (((a * 16 + b) * 16 + c) * 16 + d)
      | _ \<Rightarrow> None)"

definition utf8 :: "nat \<Rightarrow> string" where
  \<comment> \<open>the UTF-8 encoding of a code point below 0x10000\<close>
  "utf8 n =
     (if n < 0x80 then [char_of n]
      else if n < 0x800 then [char_of (0xC0 + n div 64), char_of (0x80 + n mod 64)]
      else [char_of (0xE0 + n div 4096), char_of (0x80 + (n div 64) mod 64),
            char_of (0x80 + n mod 64)])"

definition escape :: "char \<Rightarrow> string option" where
  "escape c =
     (if c = CHR 0x22 then Some [CHR 0x22]
      else if c = CHR 0x5C then Some [CHR 0x5C]
      else if c = CHR ''/'' then Some ''/''
      else if c = CHR ''b'' then Some [CHR 0x08]
      else if c = CHR ''f'' then Some [CHR 0x0C]
      else if c = CHR ''n'' then Some [CHR 0x0A]
      else if c = CHR ''r'' then Some [CHR 0x0D]
      else if c = CHR ''t'' then Some [CHR 0x09]
      else None)"

text \<open>The characters of a string after its opening quote, and the text after its closing
  quote.\<close>

fun string_body :: "string \<Rightarrow> (string \<times> string) option" where
  "string_body [] = None"
| "string_body (c # cs) =
     (if c = CHR 0x22 then Some ([], cs)
      else if c = CHR 0x5C then
        (case cs of
           [] \<Rightarrow> None
         | e # r \<Rightarrow>
             if e = CHR ''u'' then
               (case hex4 r of
                  None \<Rightarrow> None
                | Some n \<Rightarrow>
                    if 0xD800 \<le> n \<and> n < 0xE000 then None
                    else map_option (\<lambda>(s, rest). (utf8 n @ s, rest)) (string_body (drop 4 r)))
             else (case escape e of
                     None \<Rightarrow> None
                   | Some x \<Rightarrow> map_option (\<lambda>(s, rest). (x @ s, rest)) (string_body r)))
      else if byte c < 0x20 then None
      else map_option (\<lambda>(s, rest). (c # s, rest)) (string_body cs))"

definition number :: "string \<Rightarrow> (json \<times> string) option" where
  "number cs =
     (let negative = (cs \<noteq> [] \<and> hd cs = CHR ''-'');
          r = (if negative then tl cs else cs);
          ds = takeWhile is_digit r;
          rest = dropWhile is_digit r
      in if ds = [] \<or> length ds > 15 \<or> (length ds > 1 \<and> hd ds = CHR ''0'') then None
         else if rest \<noteq> [] \<and> (hd rest = CHR ''.'' \<or> hd rest = CHR ''e'' \<or> hd rest = CHR ''E'')
         then None
         else Some (JNum (if negative \<and> ds \<noteq> ''0'' then CHR ''-'' # ds else ds), rest))"

text \<open>Values, the elements of an array after its bracket, the members of an object after
  its brace; the first argument bounds the depth of the calls.\<close>

fun json_value :: "nat \<Rightarrow> string \<Rightarrow> (json \<times> string) option"
  and json_elements :: "nat \<Rightarrow> string \<Rightarrow> (json list \<times> string) option"
  and json_members :: "nat \<Rightarrow> string \<Rightarrow> ((string \<times> json) list \<times> string) option"
where
  "json_value 0 cs = None"
| "json_value (Suc n) cs =
     (case skip_space cs of
        [] \<Rightarrow> None
      | c # r \<Rightarrow>
          if c = CHR 0x22 then map_option (\<lambda>(s, rest). (JStr s, rest)) (string_body r)
          else if c = CHR ''['' then
            (if startsWith '']'' (skip_space r) then Some (JArr [], tl (skip_space r))
             else map_option (\<lambda>(vs, rest). (JArr vs, rest)) (json_elements n r))
          else if c = CHR 0x7B then
            (if startsWith [CHR 0x7D] (skip_space r) then Some (JObj [], tl (skip_space r))
             else map_option (\<lambda>(kvs, rest). (JObj kvs, rest)) (json_members n r))
          else if startsWith ''true'' (c # r) then Some (JBool True, drop 3 r)
          else if startsWith ''false'' (c # r) then Some (JBool False, drop 4 r)
          else if startsWith ''null'' (c # r) then Some (JNull, drop 3 r)
          else number (c # r))"
| "json_elements 0 cs = None"
| "json_elements (Suc n) cs =
     (case json_value n cs of
        None \<Rightarrow> None
      | Some (v, r) \<Rightarrow>
          (case skip_space r of
             [] \<Rightarrow> None
           | c # r' \<Rightarrow>
               if c = CHR '','' then map_option (\<lambda>(vs, rest). (v # vs, rest)) (json_elements n r')
               else if c = CHR '']'' then Some ([v], r')
               else None))"
| "json_members 0 cs = None"
| "json_members (Suc n) cs =
     (case skip_space cs of
        [] \<Rightarrow> None
      | q # r \<Rightarrow>
          if q \<noteq> CHR 0x22 then None
          else (case string_body r of
                  None \<Rightarrow> None
                | Some (k, r1) \<Rightarrow>
                    (case skip_space r1 of
                       [] \<Rightarrow> None
                     | colon # r2 \<Rightarrow>
                         if colon \<noteq> CHR '':'' then None
                         else (case json_value n r2 of
                                 None \<Rightarrow> None
                               | Some (v, r3) \<Rightarrow>
                                   (case skip_space r3 of
                                      [] \<Rightarrow> None
                                    | c # r4 \<Rightarrow>
                                        if c = CHR '','' then
                                          map_option (\<lambda>(kvs, rest). ((k, v) # kvs, rest))
                                            (json_members n r4)
                                        else if c = CHR 0x7D then Some ([(k, v)], r4)
                                        else None)))))"

definition JSON_text :: "string \<Rightarrow> json option" where
  "JSON_text s =
     (case json_value (2 * length s + 2) s of
        None \<Rightarrow> None
      | Some (v, rest) \<Rightarrow> if skip_space rest = [] then Some v else None)"

definition plain_host :: host where
  \<comment> \<open>a page on which \<open>marked\<close> is not loaded\<close>
  "plain_host = \<lparr>JSON_parse = JSON_text, marked = None\<rparr>"


section \<open>Notions the theorems use\<close>

text \<open>What one line of the stream adds to the content of the answer, and what it logs.\<close>

definition fragment :: "host \<Rightarrow> string \<Rightarrow> string" where
  "fragment h line = (case decode_line h line of Delta c \<Rightarrow> c | _ \<Rightarrow> [])"

definition line_warnings :: "host \<Rightarrow> string \<Rightarrow> console_entry list" where
  "line_warnings h line =
     (case decode_line h line of Caught \<Rightarrow> [Console_warn txt_parse_failed] | _ \<Rightarrow> [])"

text \<open>The text of a stream of lines, each ended by a line feed.\<close>

definition lines_text :: "string list \<Rightarrow> string" where
  "lines_text ls = concat (map (\<lambda>l. l @ [newline]) ls)"

text \<open>The responses on which \<open>askChatGPT\<close> waits for ever: the request never settles, or
  a read of the body of a successful response never does.\<close>

definition never_settles :: "fetch_result \<Rightarrow> bool" where
  "never_settles r =
     (case r of
        Fetch_pending \<Rightarrow> True
      | Fetch_rejected _ \<Rightarrow> False
      | Fetch_response ok _ _ e \<Rightarrow> ok \<and> e = Stream_stalled)"

subsection \<open>Concrete sessions\<close>

definition idle_world :: world where
  \<comment> \<open>an open reader with an untouched chat and a question typed in\<close>
  "idle_world =
     \<lparr>loading = False, messages = initial_messages, userInput = Some '' hello '',
      sendButton = Some fresh_button, messagesContainer = Some [], console = [],
      document = [Element (Some ''page'') [], Element (Some OVERLAY_ID) (overlay_children [])],
      body_classes = [BODY_ACTIVE_CLASS]\<rparr>"

definition busy_world :: world where
  "busy_world = idle_world\<lparr>loading := True\<rparr>"

definition closed_world :: world where
  \<comment> \<open>the page before the reader is opened\<close>
  "closed_world =
     \<lparr>loading = False, messages = initial_messages, userInput = None,
      sendButton = None, messagesContainer = None, console = [],
      document = [Element (Some ''page'') []], body_classes = []\<rparr>"

definition sample_article :: article where
  "sample_article =
     \<lparr>article_content = ''<p>Text</p>'', article_textContent = ''Text'', images = [],
      videos = []\<rparr>"

definition sample_env :: page_env where
  "sample_env =
     \<lparr>extraction = Some sample_article, readerSettings = None,
      content_elements = [Element None []]\<rparr>"

definition dq :: string where
  "dq = [CHR 0x22]"

definition delta_event :: "string \<Rightarrow> string" where
  \<comment> \<open>the line \<open>data: {"choices":[{"delta":{"content":"c"}}]}\<close>\<close>
  "delta_event c =
     ''data: {'' @ dq @ ''choices'' @ dq @ '':[{'' @ dq @ ''delta'' @ dq @ '':{'' @ dq
     @ ''content'' @ dq @ '':'' @ dq @ c @ dq @ ''}}]}''"

definition spec_lines :: "string list" where
  "spec_lines = [delta_event ''Hi'', delta_event '' there'', ''data: [DONE]'']"

definition spec_chunks :: "string list" where
  "spec_chunks = map (\<lambda>l. l @ [newline]) spec_lines"


definition broken_lines :: "string list" where
  \<comment> \<open>the stream of the specification with a line that is not JSON in its middle\<close>
  "broken_lines = [delta_event ''Hi'', ''data: {oops'', delta_event '' there'', ''data: [DONE]'']"

definition broken_chunks :: "string list" where
  \<comment> \<open>cut in two inside the first line\<close>
  "broken_chunks = [take 30 (lines_text broken_lines), drop 30 (lines_text broken_lines)]"

definition answered :: "world \<Rightarrow> world" where
  \<comment> \<open>the session after a question that gets the stream of the specification as answer\<close>
  "answered w =
     call_world (askChatGPT plain_host (Fetch_response True 200 spec_chunks Stream_done) w)"

definition second_turn :: world where
  \<comment> \<open>two questions asked and answered, the second typed after the first answer\<close>
  "second_turn = answered ((answered idle_world)\<lparr>userInput := Some ''more''\<rparr>)"

section \<open>Properties of the chat session\<close>

subsection \<open>What each step leaves unchanged\<close>

lemma js_trim_hello: "js_trim '' hello '' = ''hello''"
  by code_simp

lemma renderMessages_fields [simp]:
  "loading (renderMessages h w) = loading w"
  "messages (renderMessages h w) = messages w"
  "userInput (renderMessages h w) = userInput w"
  "sendButton (renderMessages h w) = sendButton w"
  "console (renderMessages h w) = console w"
  "document (renderMessages h w) = document w"
  "body_classes (renderMessages h w) = body_classes w"
  by (simp_all add: renderMessages_def split: option.splits)

lemma console_add_fields [simp]:
  "loading (console_add e w) = loading w"
  "messages (console_add e w) = messages w"
  "userInput (console_add e w) = userInput w"
  "sendButton (console_add e w) = sendButton w"
  "messagesContainer (console_add e w) = messagesContainer w"
  "document (console_add e w) = document w"
  "body_classes (console_add e w) = body_classes w"
  by (simp_all add: console_add_def)

lemma push_message_fields [simp]:
  "loading (push_message m w) = loading w"
  "messages (push_message m w) = messages w @ [m]"
  "userInput (push_message m w) = userInput w"
  "sendButton (push_message m w) = sendButton w"
  "messagesContainer (push_message m w) = messagesContainer w"
  "console (push_message m w) = console w"
  "document (push_message m w) = document w"
  "body_classes (push_message m w) = body_classes w"
  by (simp_all add: push_message_def)

lemma process_line_fields [simp]:
  "loading (snd (process_line h st line)) = loading (snd st)"
  "userInput (snd (process_line h st line)) = userInput (snd st)"
  "sendButton (snd (process_line h st line)) = sendButton (snd st)"
  "document (snd (process_line h st line)) = document (snd st)"
  "body_classes (snd (process_line h st line)) = body_classes (snd st)"
  by (simp_all add: process_line_def split: prod.splits line_result.splits)

lemma process_lines_fields [simp]:
  "loading (snd (foldl (process_line h) st ls)) = loading (snd st)"
  "userInput (snd (foldl (process_line h) st ls)) = userInput (snd st)"
  "sendButton (snd (foldl (process_line h) st ls)) = sendButton (snd st)"
  "document (snd (foldl (process_line h) st ls)) = document (snd st)"
  "body_classes (snd (foldl (process_line h) st ls)) = body_classes (snd st)"
  by (induction ls arbitrary: st; simp)+

lemma read_loop_fields:
  "loading (world_after (read_loop h cs e b st)) = loading (snd st)
   \<and> userInput (world_after (read_loop h cs e b st)) = userInput (snd st)
   \<and> sendButton (world_after (read_loop h cs e b st)) = sendButton (snd st)
   \<and> document (world_after (read_loop h cs e b st)) = document (snd st)
   \<and> body_classes (world_after (read_loop h cs e b st)) = body_classes (snd st)"
proof (induction cs arbitrary: b st)
  case Nil
  then show ?case by (cases st) (simp add: world_after_def split: stream_end.splits)
next
  case (Cons c cs)
  then show ?case by (cases st) (simp split: prod.splits)
qed

lemma read_loop_settles:
  "e \<noteq> Stream_stalled \<Longrightarrow> read_loop h cs e b st \<noteq> Waiting w'"
proof (induction cs arbitrary: b st)
  case Nil
  then show ?case by (cases st) (simp split: stream_end.splits)
next
  case (Cons c cs)
  then show ?case by (cases st) (simp split: prod.splits)
qed

lemma begin_send_fields:
  "messages (begin_send h t w) = messages w @ [\<lparr>role = ''user'', content = t\<rparr>]"
  "console (begin_send h t w)
     = console w @ [Console_log_messages (messages w @ [\<lparr>role = ''user'', content = t\<rparr>])]"
  "userInput (begin_send h t w) = Some []"
  "loading (begin_send h t w) = True"
  "sendButton (begin_send h t w)
     = map_option (\<lambda>b. b\<lparr>disabled := True, textContent := txt_sending\<rparr>) (sendButton w)"
  "document (begin_send h t w) = document w"
  "body_classes (begin_send h t w) = body_classes w"
  by (simp_all add: begin_send_def Let_def console_add_def split: option.splits)

lemma read_loop_stalls:
  "\<exists>w'. read_loop h cs Stream_stalled b st = Waiting w'"
proof (induction cs arbitrary: b st)
  case Nil
  then show ?case by (cases st) simp
next
  case (Cons c cs)
  then show ?case by (cases st) (simp split: prod.splits)
qed

lemma finally_block_fields [simp]:
  "loading (finally_block w) = False"
  "messages (finally_block w) = messages w"
  "userInput (finally_block w) = userInput w"
  "sendButton (finally_block w) =
     map_option (\<lambda>b. b\<lparr>disabled := False, textContent := txt_send\<rparr>) (sendButton w)"
  by (simp_all add: finally_block_def Let_def split: option.splits)

lemma catch_block_fields [simp]:
  "sendButton (catch_block h t err w) = sendButton w"
  "userInput (catch_block h t err w) = Some t"
  "messages (catch_block h t err w) = snd (js_pop (messages w))"
  by (simp_all add: catch_block_def Let_def showMessage_def)

lemma try_block_button:
  "sendButton (world_after (try_block h r w)) = sendButton w"
  using read_loop_fields[of h _ _ "[]" "([], renderMessages h (push_message \<lparr>role = ''assistant'', content = []\<rparr> w))"]
  by (simp add: try_block_def world_after_def split: fetch_result.splits)

lemma try_block_settles:
  "\<not> never_settles r \<Longrightarrow> try_block h r w \<noteq> Waiting w'"
  by (auto simp: try_block_def never_settles_def read_loop_settles split: fetch_result.splits)

subsection \<open>The guards and the cleanup of askChatGPT\<close>

text \<open>
  Claim C5. A call of \<open>askChatGPT\<close> while a send is in progress (\<open>loading\<close> is true)
  returns and changes nothing of the session or the page: no message is added, \<open>loading\<close>
  stays true, the input keeps its value. Only the console may get a line, when the input is
  missing or empty.
\<close>

theorem askChatGPT_while_loading:
  assumes "loading w"
  shows "\<exists>entries. askChatGPT h r w = Returned (w\<lparr>console := console w @ entries\<rparr>)"
proof (cases "userInput w")
  case None
  then have "askChatGPT h r w = Returned (w\<lparr>console := console w @ [Console_error txt_no_input]\<rparr>)"
    by (simp add: askChatGPT_def console_add_def)
  then show ?thesis by blast
next
  case (Some v)
  show ?thesis
  proof (cases "js_trim v = []")
    case True
    with Some have "askChatGPT h r w = Returned (w\<lparr>console := console w @
        [Console_log (''['' @ ''warning'' @ ''] '' @ txt_enter_content)]\<rparr>)"
      by (simp add: askChatGPT_def showMessage_def console_add_def)
    then show ?thesis by blast
  next
    case False
    with Some assms have "askChatGPT h r w = Returned (w\<lparr>console := console w @ []\<rparr>)"
      by (simp add: askChatGPT_def)
    then show ?thesis by blast
  qed
qed

theorem askChatGPT_while_loading_witness:
  "loading busy_world \<and>
   (\<exists>entries. askChatGPT plain_host (Fetch_response True 200 [] Stream_done) busy_world
      = Returned (busy_world\<lparr>console := console busy_world @ entries\<rparr>))"
  using askChatGPT_while_loading [of busy_world plain_host "Fetch_response True 200 [] Stream_done"]
  by (simp add: busy_world_def idle_world_def)

text \<open>
  Claim C7. A call of \<open>askChatGPT\<close> that passes the guards (an input with text, no send
  in progress) and whose request and reads settle returns, with \<open>loading\<close> false and the
  send button enabled and labelled as when idle; this holds on success, on a failure status,
  on a rejected request and on a failing read alike.
\<close>

theorem askChatGPT_cleanup:
  assumes "userInput w = Some v" and "js_trim v \<noteq> []" and "\<not> loading w"
    and "\<not> never_settles r"
  shows "\<exists>w'. askChatGPT h r w = Returned w' \<and> loading w' = False
           \<and> sendButton w' =
               map_option (\<lambda>b. b\<lparr>disabled := False, textContent := txt_send\<rparr>) (sendButton w)"
proof -
  define w6 where "w6 = begin_send h (js_trim v) w"
  have ask: "askChatGPT h r w =
     (case try_block h r w6 of
        Waiting w7 \<Rightarrow> Never_returns w7
      | Completed w7 \<Rightarrow> Returned (finally_block w7)
      | Thrown err w7 \<Rightarrow> Returned (finally_block (catch_block h (js_trim v) err w7)))"
    using assms by (simp add: askChatGPT_def Let_def w6_def)
  have b6: "sendButton w6 = map_option (\<lambda>b. b\<lparr>disabled := True, textContent := txt_sending\<rparr>) (sendButton w)"
    by (simp add: w6_def begin_send_fields)
  have tb: "sendButton (world_after (try_block h r w6)) = sendButton w6"
    by (rule try_block_button)
  show ?thesis
  proof (cases "try_block h r w6")
    case (Completed w7)
    with ask tb b6 show ?thesis by (simp add: world_after_def option.map_comp comp_def)
  next
    case (Thrown err w7)
    with ask tb b6 show ?thesis by (simp add: world_after_def option.map_comp comp_def)
  next
    case (Waiting w7)
    with try_block_settles[OF assms(4)] show ?thesis by blast
  qed
qed


theorem askChatGPT_cleanup_witness:
  "userInput idle_world = Some '' hello '' \<and> js_trim '' hello '' \<noteq> []
   \<and> \<not> loading idle_world \<and> \<not> never_settles (Fetch_response False 500 [] Stream_done)
   \<and> (\<exists>w'. askChatGPT plain_host (Fetch_response False 500 [] Stream_done) idle_world
              = Returned w'
            \<and> loading w' = False
            \<and> sendButton w' = Some \<lparr>disabled = False, textContent = txt_send\<rparr>)"
proof -
  have a: "userInput idle_world = Some '' hello ''" by (simp add: idle_world_def)
  have b: "js_trim '' hello '' \<noteq> []" by (simp add: js_trim_hello)
  have c: "\<not> loading idle_world" by (simp add: idle_world_def)
  have d: "\<not> never_settles (Fetch_response False 500 [] Stream_done)"
    by (simp add: never_settles_def)
  have e: "sendButton idle_world = Some fresh_button" by (simp add: idle_world_def)
  show ?thesis
    using a b c d askChatGPT_cleanup [OF a b c d, of plain_host]
    by (simp add: e fresh_button_def)
qed

text \<open>When the request or a read never settles, the call never returns and the session
  stays in its sending state.\<close>

lemma askChatGPT_stalled:
  assumes "userInput w = Some v" and "js_trim v \<noteq> []" and "\<not> loading w"
    and "never_settles r"
  shows "\<exists>w'. askChatGPT h r w = Never_returns w' \<and> loading w'"
proof -
  define w6 where "w6 = begin_send h (js_trim v) w"
  have ask: "askChatGPT h r w =
     (case try_block h r w6 of
        Waiting w7 \<Rightarrow> Never_returns w7
      | Completed w7 \<Rightarrow> Returned (finally_block w7)
      | Thrown err w7 \<Rightarrow> Returned (finally_block (catch_block h (js_trim v) err w7)))"
    using assms by (simp add: askChatGPT_def Let_def w6_def)
  have "\<exists>w7. try_block h r w6 = Waiting w7"
  proof (cases r)
    case (Fetch_rejected m)
    with assms(4) show ?thesis by (simp add: never_settles_def)
  next
    case Fetch_pending
    then show ?thesis by (simp add: try_block_def)
  next
    case (Fetch_response ok status chunks e)
    with assms(4) have "ok" and "e = Stream_stalled" by (simp_all add: never_settles_def)
    with Fetch_response read_loop_stalls show ?thesis by (simp add: try_block_def)
  qed
  then obtain w7 where w7: "try_block h r w6 = Waiting w7" by blast
  have "loading (world_after (try_block h r w6)) = loading w6"
    using read_loop_fields [of h _ _ "[]"
        "([], renderMessages h (push_message \<lparr>role = ''assistant'', content = []\<rparr> w6))"]
    by (simp add: try_block_def world_after_def split: fetch_result.splits)
  with w7 have "loading w7" by (simp add: world_after_def w6_def begin_send_fields)
  with ask w7 show ?thesis by simp
qed

subsection \<open>Lines, chunks and the carry-over buffer\<close>

lemma split_nl_nonempty [simp]: "split_nl s \<noteq> []"
  by (induction s) (auto split: list.splits)

lemma split_nl_append_plain:
  "newline \<notin> set b \<Longrightarrow> split_nl (b @ t) = (b @ hd (split_nl t)) # tl (split_nl t)"
proof (induction b)
  case Nil
  then show ?case by simp
next
  case (Cons c b)
  then have "c \<noteq> newline" and "split_nl (b @ t) = (b @ hd (split_nl t)) # tl (split_nl t)"
    by auto
  then show ?case by simp
qed

lemma split_nl_append:
  "split_nl (a @ t) = butlast (split_nl a) @ split_nl (last (split_nl a) @ t)"
proof (induction a)
  case Nil
  then show ?case by simp
next
  case (Cons c a)
  show ?case
  proof (cases "c = newline")
    case True
    have "split_nl ((c # a) @ t) = [] # split_nl (a @ t)" using True by simp
    also have "\<dots> = [] # butlast (split_nl a) @ split_nl (last (split_nl a) @ t)"
      by (simp only: Cons.IH)
    also have "\<dots> = butlast (split_nl (c # a)) @ split_nl (last (split_nl (c # a)) @ t)"
      using True by simp
    finally show ?thesis .
  next
    case False
    obtain l ls where s: "split_nl a = l # ls" by (cases "split_nl a") auto
    have ih: "split_nl (a @ t) = butlast (l # ls) @ split_nl (last (l # ls) @ t)"
      using Cons.IH by (simp only: s)
    show ?thesis
    proof (cases ls)
      case Nil
      then have e: "split_nl (a @ t) = split_nl (l @ t)" using ih by simp
      have "split_nl ((c # a) @ t) = split_nl ((c # l) @ t)" using False by (simp add: e)
      then show ?thesis using False by (simp add: s Nil)
    next
      case (Cons l' ls')
      then have e: "split_nl (a @ t) = l # butlast ls @ split_nl (last ls @ t)"
        using ih by simp
      have "split_nl ((c # a) @ t) = (c # l) # butlast ls @ split_nl (last ls @ t)"
        using False by (simp add: e)
      then show ?thesis using False Cons by (simp add: s)
    qed
  qed
qed

lemma js_pop_split:
  "js_pop (split_nl s) = (Some (last (split_nl s)), butlast (split_nl s))"
  by (cases "split_nl s") (simp_all add: js_pop_def)

lemma split_nl_plain: "newline \<notin> set s \<Longrightarrow> split_nl s = [s]"
  by (induction s) auto

lemma last_split_no_newline: "newline \<notin> set (last (split_nl s))"
  by (induction s) (auto split: list.splits)

lemma split_nl_lines_text:
  "\<forall>l\<in>set ls. newline \<notin> set l \<Longrightarrow> split_nl (lines_text ls @ t) = ls @ split_nl t"
proof (induction ls)
  case Nil
  then show ?case by (simp add: lines_text_def)
next
  case (Cons l ls)
  then have ih: "split_nl (lines_text ls @ t) = ls @ split_nl t" by simp
  have tx: "lines_text (l # ls) @ t = l @ (newline # (lines_text ls @ t))"
    by (simp add: lines_text_def)
  have nl: "newline \<notin> set l" using Cons.prems by simp
  have "split_nl (newline # (lines_text ls @ t)) = [] # ls @ split_nl t"
    by (simp add: ih)
  then show ?case
    unfolding tx by (simp add: split_nl_append_plain [OF nl])
qed

lemma read_loop_whole:
  "newline \<notin> set b \<Longrightarrow>
   read_loop h cs e b st =
     read_loop h [] e [] (foldl (process_line h) st (butlast (split_nl (b @ concat cs))))"
proof (induction cs arbitrary: b st)
  case Nil
  then show ?case by (cases st) (simp add: split_nl_plain)
next
  case (Cons c cs)
  obtain acc w where st: "st = (acc, w)" by (cases st)
  let ?b' = "last (split_nl (b @ c))"
  have nb: "newline \<notin> set ?b'" by (rule last_split_no_newline)
  have "split_nl ((b @ c) @ concat cs) = butlast (split_nl (b @ c)) @ split_nl (?b' @ concat cs)"
    by (rule split_nl_append)
  then have bl: "butlast (split_nl ((b @ c) @ concat cs))
       = butlast (split_nl (b @ c)) @ butlast (split_nl (?b' @ concat cs))"
    by (simp only: butlast_append split_nl_nonempty if_False)
  have "read_loop h (c # cs) e b st
      = read_loop h cs e ?b' (foldl (process_line h) st (butlast (split_nl (b @ c))))"
    by (simp add: st js_pop_split)
  also have "\<dots> = read_loop h [] e []
      (foldl (process_line h) (foldl (process_line h) st (butlast (split_nl (b @ c))))
         (butlast (split_nl (?b' @ concat cs))))"
    by (rule Cons.IH [OF nb])
  also have "\<dots> = read_loop h [] e []
      (foldl (process_line h) st (butlast (split_nl ((b @ c) @ concat cs))))"
    by (simp only: bl foldl_append)
  finally show ?case by simp
qed

text \<open>
  The loop processes the lines that a line feed ends, whatever the chunks; the text after
  the last line feed stays in the buffer and is never processed.
\<close>

lemma read_loop_lines_rest:
  assumes "\<forall>l\<in>set ls. newline \<notin> set l" and "newline \<notin> set rest"
    and "concat cs = lines_text ls @ rest"
  shows "read_loop h cs e [] st = read_loop h [] e [] (foldl (process_line h) st ls)"
proof -
  have "split_nl (lines_text ls @ rest) = ls @ split_nl rest"
    by (rule split_nl_lines_text [OF assms(1)])
  then have "butlast (split_nl ([] @ concat cs)) = ls"
    by (simp add: assms(3) split_nl_plain [OF assms(2)])
  with read_loop_whole [of "[]" h cs e st] show ?thesis by simp
qed

lemma read_loop_lines:
  assumes "\<forall>l\<in>set ls. newline \<notin> set l" and "concat cs = lines_text ls"
  shows "read_loop h cs e [] st = read_loop h [] e [] (foldl (process_line h) st ls)"
  using read_loop_lines_rest [OF assms(1), of "[]" cs] assms(2) by simp


subsection \<open>The effect of the streaming loop\<close>

lemma set_last_content_twice [simp]:
  "set_last_content c (set_last_content c' ms) = set_last_content c ms"
  by (simp add: set_last_content_def)

lemma set_last_content_nonempty [simp]: "set_last_content c ms \<noteq> []"
  by (simp add: set_last_content_def)

lemma set_last_content_same:
  assumes "ms \<noteq> []" and "content (last ms) = c"
  shows "set_last_content c ms = ms"
proof -
  have "(last ms)\<lparr>content := c\<rparr> = last ms" using assms(2) by auto
  with assms(1) show ?thesis by (simp add: set_last_content_def)
qed

lemma set_last_content_snoc [simp]:
  "set_last_content c (ms @ [m]) = ms @ [m\<lparr>content := c\<rparr>]"
  by (simp add: set_last_content_def)

lemma process_line_effect:
  assumes "messages w \<noteq> []"
  shows "fst (process_line h (acc, w) line) = acc @ fragment h line"
    and "messages (snd (process_line h (acc, w) line))
           = (case decode_line h line of Delta c \<Rightarrow> set_last_content (acc @ c) (messages w)
              | _ \<Rightarrow> messages w)"
    and "console (snd (process_line h (acc, w) line)) = console w @ line_warnings h line"
  using assms
  by (simp_all add: process_line_def fragment_def line_warnings_def console_add_def
        split: line_result.splits)

lemma process_lines_effect:
  assumes "messages w \<noteq> []" and "content (last (messages w)) = acc"
  shows "fst (foldl (process_line h) (acc, w) ls) = acc @ concat (map (fragment h) ls)
       \<and> messages (snd (foldl (process_line h) (acc, w) ls))
           = set_last_content (acc @ concat (map (fragment h) ls)) (messages w)
       \<and> console (snd (foldl (process_line h) (acc, w) ls))
           = console w @ concat (map (line_warnings h) ls)"
  using assms
proof (induction ls arbitrary: acc w)
  case Nil
  then show ?case by (simp add: set_last_content_same)
next
  case (Cons l ls)
  obtain acc' w' where p: "process_line h (acc, w) l = (acc', w')"
    by (cases "process_line h (acc, w) l")
  have acc': "acc' = acc @ fragment h l"
    using process_line_effect(1) [OF Cons.prems(1), of h acc l] p by simp
  have ms: "messages w' = set_last_content acc' (messages w)"
    using process_line_effect(2) [OF Cons.prems(1), of h acc l] p Cons.prems acc'
    by (simp add: fragment_def set_last_content_same split: line_result.splits)
  have co: "console w' = console w @ line_warnings h l"
    using process_line_effect(3) [OF Cons.prems(1), of h acc l] p by simp
  have ne: "messages w' \<noteq> []" by (simp add: ms)
  have la: "content (last (messages w')) = acc'" by (simp add: ms set_last_content_def)
  from Cons.IH [OF ne la] show ?case
    by (simp add: p ms co acc')
qed

lemma set_last_content_snoc2 [simp]:
  "set_last_content c (ms @ [a, b]) = ms @ [a, b\<lparr>content := c\<rparr>]"
  by (simp add: set_last_content_def butlast_append)

lemma askChatGPT_stream:
  assumes "userInput w = Some v" and "js_trim v \<noteq> []" and "\<not> loading w"
    and "\<forall>l\<in>set ls. newline \<notin> set l" and "concat chunks = lines_text ls"
  shows "\<exists>w'. askChatGPT h (Fetch_response True status chunks Stream_done) w = Returned w'
           \<and> messages w' = messages w @
                [\<lparr>role = ''user'', content = js_trim v\<rparr>,
                 \<lparr>role = ''assistant'', content = concat (map (fragment h) ls)\<rparr>]
           \<and> console w' = console w @
                [Console_log_messages (messages w @ [\<lparr>role = ''user'', content = js_trim v\<rparr>])]
                @ concat (map (line_warnings h) ls)
           \<and> userInput w' = Some []"
proof -
  define w6 where "w6 = begin_send h (js_trim v) w"
  have ask: "askChatGPT h (Fetch_response True status chunks Stream_done) w =
           (case try_block h (Fetch_response True status chunks Stream_done) w6 of
              Completed w7 \<Rightarrow> Returned (finally_block w7)
            | Thrown err w7 \<Rightarrow> Returned (finally_block (catch_block h (js_trim v) err w7))
            | Waiting w7 \<Rightarrow> Never_returns w7)"
    using assms(1-3) by (simp add: askChatGPT_def Let_def w6_def)
  have m6: "messages w6 = messages w @ [\<lparr>role = ''user'', content = js_trim v\<rparr>]"
    and c6: "console w6 = console w @ [Console_log_messages (messages w6)]"
    and u6: "userInput w6 = Some []"
    by (simp_all add: w6_def begin_send_fields)
  define w7 where "w7 = renderMessages h (push_message \<lparr>role = ''assistant'', content = []\<rparr> w6)"
  define st where "st = foldl (process_line h) ([], w7) ls"
  have ne: "messages w7 \<noteq> []" and la: "content (last (messages w7)) = []"
    by (simp_all add: w7_def)
  have tb: "try_block h (Fetch_response True status chunks Stream_done) w6 = Completed (snd st)"
    using read_loop_lines [OF assms(4,5), of h Stream_done "([], w7)"]
    by (cases st) (simp add: try_block_def w7_def st_def)
  have eff: "messages (snd st) = set_last_content (concat (map (fragment h) ls)) (messages w7)"
       "console (snd st) = console w7 @ concat (map (line_warnings h) ls)"
    using process_lines_effect [OF ne la, of h ls] by (simp_all add: st_def)
  have "userInput (snd st) = Some []" by (simp add: st_def w7_def u6)
  then show ?thesis
    by (simp add: ask tb eff w7_def m6 c6 finally_block_def Let_def split: option.splits)
qed


subsection \<open>Lines that start with the data marker are never blank\<close>

lemma leading_space_d: "leading_space (CHR ''d'' # s) = 0"
  by (simp add: leading_space_def js_white_space_def startsWith_def)

lemma trim_start_d: "trim_start (CHR ''d'' # s) = CHR ''d'' # s"
  by (simp add: trim_start.simps leading_space_d)

lemma white_space_not_d: "w \<in> set js_white_space \<Longrightarrow> w \<noteq> [] \<and> hd w \<noteq> CHR ''d''"
  by (auto simp: js_white_space_def)

lemma trailing_space_found:
  assumes "trailing_space s \<noteq> 0"
  shows "\<exists>w\<in>set js_white_space. endsWith w s \<and> trailing_space s = length w"
proof (cases "find (\<lambda>w. endsWith w s) js_white_space")
  case None
  with assms show ?thesis by (simp add: trailing_space_def)
next
  case (Some w)
  then have "w \<in> set js_white_space" and "endsWith w s"
    by (auto simp: find_Some_iff)
  with Some show ?thesis by (auto simp: trailing_space_def)
qed

lemma trim_end_d: "s \<noteq> [] \<Longrightarrow> hd s = CHR ''d'' \<Longrightarrow> trim_end s \<noteq> []"
proof (induction s rule: trim_end.induct)
  case (1 s)
  show ?case
  proof (cases "trailing_space s = 0")
    case True
    with 1 show ?thesis by (simp add: trim_end.simps)
  next
    case False
    then obtain w where w: "w \<in> set js_white_space" "endsWith w s" "trailing_space s = length w"
      using trailing_space_found by blast
    have wd: "w \<noteq> []" "hd w \<noteq> CHR ''d''" using white_space_not_d [OF w(1)] by auto
    have le: "length w \<le> length s" and dr: "drop (length s - length w) s = w"
      using w(2) by (auto simp: endsWith_def)
    have "length w \<noteq> length s"
    proof
      assume "length w = length s"
      with dr have "s = w" by simp
      with wd(2) "1.prems"(2) show False by simp
    qed
    with le have lt: "length w < length s" by simp
    let ?s' = "take (length s - length w) s"
    have ne: "?s' \<noteq> []" using lt "1.prems"(1) by simp
    have hd': "hd ?s' = CHR ''d''" using lt "1.prems" by (cases s) (auto simp: take_Cons')
    have "trim_end s = trim_end ?s'"
      using False "1.prems"(1) w(3) by (subst trim_end.simps) simp
    moreover have "trim_end ?s' \<noteq> []"
      using "1.IH" False "1.prems"(1) ne hd' w(3) by simp
    ultimately show ?thesis by simp
  qed
qed

lemma js_trim_data: "js_trim (''data: '' @ payload) \<noteq> []"
proof -
  have "trim_start (''data: '' @ payload) = ''data: '' @ payload"
    using trim_start_d [of "''ata: '' @ payload"] by simp
  moreover have "trim_end (''data: '' @ payload) \<noteq> []"
    by (rule trim_end_d) simp_all
  ultimately show ?thesis by (simp add: js_trim_def)
qed

lemma decode_unparsable:
  assumes "JSON_parse h payload = None" and "payload \<noteq> ''[DONE]''"
  shows "decode_line h (''data: '' @ payload) = Caught"
proof -
  have "''data: '' @ payload \<noteq> ''data: [DONE]''" using assms(2) by simp
  moreover have "startsWith ''data: '' (''data: '' @ payload)" by (simp add: startsWith_def)
  moreover have "drop 6 (''data: '' @ payload) = payload" by simp
  ultimately show ?thesis
    using assms(1) js_trim_data [of payload] by (simp only: decode_line_def if_False if_True option.case)
qed

subsection \<open>The stream is put together again\<close>

text \<open>
  Claim C2. Whatever the chunks into which the transport cuts a stream of lines, each ended
  by a line feed, the loop of \<open>askChatGPT\<close> puts the lines together again: when the call
  returns, the history holds the user's message and the assistant's, whose content is the
  concatenation of the delta fragments of the lines in their order. For the three chunks of
  the specification this content is \<open>Hi there\<close>.
\<close>

theorem stream_reassembled:
  assumes "userInput w = Some v" and "js_trim v \<noteq> []" and "\<not> loading w"
    and "\<forall>l\<in>set ls. newline \<notin> set l" and "concat chunks = lines_text ls"
  shows "\<exists>w'. askChatGPT h (Fetch_response True status chunks Stream_done) w = Returned w'
           \<and> messages w' = messages w @
                [\<lparr>role = ''user'', content = js_trim v\<rparr>,
                 \<lparr>role = ''assistant'', content = concat (map (fragment h) ls)\<rparr>]"
  using askChatGPT_stream [OF assms, of h status] by blast

lemma spec_fragments: "concat (map (fragment plain_host) spec_lines) = ''Hi there''"
  by code_simp

lemma spec_lines_plain: "\<forall>l\<in>set spec_lines. newline \<notin> set l"
  by code_simp

theorem stream_reassembled_witness:
  "userInput idle_world = Some '' hello '' \<and> js_trim '' hello '' \<noteq> []
   \<and> \<not> loading idle_world \<and> list_all (\<lambda>l. newline \<notin> set l) spec_lines
   \<and> concat spec_chunks = lines_text spec_lines
   \<and> (\<exists>w'. askChatGPT plain_host (Fetch_response True 200 spec_chunks Stream_done) idle_world
              = Returned w'
            \<and> messages w' = initial_messages @
                 [\<lparr>role = ''user'', content = ''hello''\<rparr>,
                  \<lparr>role = ''assistant'', content = ''Hi there''\<rparr>])"
proof -
  have a: "userInput idle_world = Some '' hello ''" by (simp add: idle_world_def)
  have b: "js_trim '' hello '' \<noteq> []" by (simp add: js_trim_hello)
  have c: "\<not> loading idle_world" by (simp add: idle_world_def)
  have d: "\<forall>l\<in>set spec_lines. newline \<notin> set l" by (rule spec_lines_plain)
  have e: "concat spec_chunks = lines_text spec_lines"
    by (simp add: spec_chunks_def lines_text_def)
  have m: "messages idle_world = initial_messages" by (simp add: idle_world_def)
  have d': "list_all (\<lambda>l. newline \<notin> set l) spec_lines"
    using d by (simp only: list_all_iff)
  show ?thesis
    using a b c d' e stream_reassembled [OF a b c d e, of plain_host 200]
    by (simp only: m js_trim_hello spec_fragments simp_thms)
qed

text \<open>
  Claim C4. A line of the stream that starts with the data marker and whose payload is not
  JSON does not end the stream: the failure is caught and logged as a warning, and the
  lines after it are processed as the lines before it were, their fragments added to the
  content of the assistant's message.
\<close>

theorem malformed_line_skipped:
  assumes "userInput w = Some v" and "js_trim v \<noteq> []" and "\<not> loading w"
    and "\<forall>l\<in>set (before @ after). newline \<notin> set l" and "newline \<notin> set payload"
    and "JSON_parse h payload = None" and "payload \<noteq> ''[DONE]''"
    and "concat chunks = lines_text (before @ [''data: '' @ payload] @ after)"
  shows "\<exists>w'. askChatGPT h (Fetch_response True status chunks Stream_done) w = Returned w'
           \<and> messages w' = messages w @
                [\<lparr>role = ''user'', content = js_trim v\<rparr>,
                 \<lparr>role = ''assistant'',
                  content = concat (map (fragment h) before) @ concat (map (fragment h) after)\<rparr>]
           \<and> Console_warn txt_parse_failed \<in> set (console w')"
proof -
  let ?bad = "''data: '' @ payload"
  have dec: "decode_line h ?bad = Caught" by (rule decode_unparsable [OF assms(6,7)])
  have plain: "\<forall>l\<in>set (before @ [?bad] @ after). newline \<notin> set l"
    using assms(4,5) by (auto simp: newline_def)
  have f: "fragment h ?bad = []"
    by (simp only: fragment_def dec line_result.case)
  have l: "line_warnings h ?bad = [Console_warn txt_parse_failed]"
    by (simp only: line_warnings_def dec line_result.case)
  have fr: "concat (map (fragment h) (before @ [?bad] @ after))
        = concat (map (fragment h) before) @ concat (map (fragment h) after)"
    using f by simp
  have wa: "Console_warn txt_parse_failed
        \<in> set (concat (map (line_warnings h) (before @ [?bad] @ after)))"
    using l by simp
  from askChatGPT_stream [OF assms(1-3) plain assms(8), of h status]
  obtain w' where "askChatGPT h (Fetch_response True status chunks Stream_done) w = Returned w'"
    and "messages w' = messages w @
                [\<lparr>role = ''user'', content = js_trim v\<rparr>,
                 \<lparr>role = ''assistant'',
                  content = concat (map (fragment h) (before @ [?bad] @ after))\<rparr>]"
    and "console w' = console w @
                [Console_log_messages (messages w @ [\<lparr>role = ''user'', content = js_trim v\<rparr>])]
                @ concat (map (line_warnings h) (before @ [?bad] @ after))"
    by blast
  with fr wa show ?thesis by (simp only: ) auto
qed


theorem malformed_line_skipped_witness:
  "userInput idle_world = Some '' hello '' \<and> js_trim '' hello '' \<noteq> []
   \<and> \<not> loading idle_world
   \<and> list_all (\<lambda>l. newline \<notin> set l)
         ([delta_event ''Hi''] @ [delta_event '' there'', ''data: [DONE]''])
   \<and> newline \<notin> set ''{oops'' \<and> JSON_parse plain_host ''{oops'' = None
   \<and> ''{oops'' \<noteq> ''[DONE]''
   \<and> concat broken_chunks = lines_text broken_lines
   \<and> (\<exists>w'. askChatGPT plain_host (Fetch_response True 200 broken_chunks Stream_done) idle_world
              = Returned w'
            \<and> messages w' = initial_messages @
                 [\<lparr>role = ''user'', content = ''hello''\<rparr>,
                  \<lparr>role = ''assistant'', content = ''Hi there''\<rparr>]
            \<and> Console_warn txt_parse_failed \<in> set (console w'))"
proof -
  have a: "userInput idle_world = Some '' hello ''" by (simp add: idle_world_def)
  have b: "js_trim '' hello '' \<noteq> []" by (simp add: js_trim_hello)
  have c: "\<not> loading idle_world" by (simp add: idle_world_def)
  have d: "\<forall>l\<in>set ([delta_event ''Hi''] @ [delta_event '' there'', ''data: [DONE]'']).
             newline \<notin> set l"
    by code_simp
  have e: "newline \<notin> set ''{oops''" by code_simp
  have f: "JSON_parse plain_host ''{oops'' = None" by code_simp
  have g: "''{oops'' \<noteq> ''[DONE]''" by simp
  have i: "concat broken_chunks = lines_text broken_lines"
    by (simp add: broken_chunks_def)
  have j: "concat broken_chunks
      = lines_text ([delta_event ''Hi''] @ [''data: '' @ ''{oops''] @ [delta_event '' there'', ''data: [DONE]''])"
    by (simp add: i broken_lines_def)
  have k: "concat (map (fragment plain_host) [delta_event ''Hi''])
      @ concat (map (fragment plain_host) [delta_event '' there'', ''data: [DONE]'']) = ''Hi there''"
    by code_simp
  have m: "messages idle_world = initial_messages" by (simp add: idle_world_def)
  have d': "list_all (\<lambda>l. newline \<notin> set l)
         ([delta_event ''Hi''] @ [delta_event '' there'', ''data: [DONE]''])"
    using d by (simp only: list_all_iff)
  show ?thesis
    using a b c d' e f g i malformed_line_skipped [OF a b c d e f g j, of 200]
    by (simp only: m js_trim_hello k simp_thms)
qed
subsection \<open>A failing request\<close>

lemma js_pop_snoc [simp]: "js_pop (ms @ [m]) = (Some m, ms)"
  by (cases ms) (simp_all add: js_pop_def)

lemma js_pop_butlast: "xs \<noteq> [] \<Longrightarrow> snd (js_pop xs) = butlast xs"
  by (cases xs) (simp_all add: js_pop_def)

lemma askChatGPT_http_failure:
  assumes "userInput w = Some v" and "js_trim v \<noteq> []" and "\<not> loading w"
  shows "\<exists>w'. askChatGPT h (Fetch_response False status chunks e) w = Returned w'
           \<and> messages w' = messages w \<and> userInput w' = Some (js_trim v)"
  using assms
  by (simp add: askChatGPT_def try_block_def begin_send_fields Let_def)

text \<open>
  Claim C1. After a call of \<open>askChatGPT\<close> that gets a response with a failure status the
  history should be longer by one, the user's message. The code pops the last message in
  its \<open>catch\<close> block, and on this path no placeholder was pushed: in the session below it
  removes the user's message, and the history is as long as before the call. The input
  gets the submitted (trimmed) text back.
\<close>

theorem http_failure_history:
  "\<exists>w'. askChatGPT plain_host (Fetch_response False 500 [] Stream_done) idle_world = Returned w'
        \<and> length (messages w') = length (messages idle_world)
        \<and> messages w' = initial_messages
        \<and> userInput w' = Some ''hello''"
proof -
  have a: "userInput idle_world = Some '' hello ''" by (simp add: idle_world_def)
  have b: "js_trim '' hello '' \<noteq> []" by (simp add: js_trim_hello)
  have c: "\<not> loading idle_world" by (simp add: idle_world_def)
  have m: "messages idle_world = initial_messages" by (simp add: idle_world_def)
  from askChatGPT_http_failure [OF a b c, of plain_host 500 "[]" Stream_done]
  show ?thesis by (auto simp: m js_trim_hello)
qed

subsection \<open>The system prompt\<close>

lemma render_from_Suc: "render_from h (Suc n) ms = map (render_item h) ms"
  by (induction ms arbitrary: n) simp_all

lemma render_from_0: "render_from h 0 ms = map (render_item h) (tl ms)"
  by (cases ms) (simp_all add: render_from_Suc)

lemma process_line_front:
  assumes "messages w \<noteq> []"
  shows "messages (snd (process_line h (acc, w) line)) \<noteq> []
       \<and> butlast (messages (snd (process_line h (acc, w) line))) = butlast (messages w)"
  using assms
  by (simp add: process_line_def set_last_content_def split: line_result.splits)

lemma process_lines_front:
  assumes "messages (snd st) \<noteq> []"
  shows "messages (snd (foldl (process_line h) st ls)) \<noteq> []
       \<and> butlast (messages (snd (foldl (process_line h) st ls))) = butlast (messages (snd st))"
  using assms
proof (induction ls arbitrary: st)
  case Nil
  then show ?case by simp
next
  case (Cons l ls)
  obtain acc w where st: "st = (acc, w)" by (cases st)
  from Cons.prems st have "messages w \<noteq> []" by simp
  from process_line_front [OF this, of h acc l] Cons.IH [of "process_line h (acc, w) l"]
  show ?case by (simp add: st)
qed

lemma read_loop_front:
  assumes "messages (snd st) \<noteq> []"
  shows "messages (world_after (read_loop h cs e b st)) \<noteq> []
       \<and> butlast (messages (world_after (read_loop h cs e b st))) = butlast (messages (snd st))"
  using assms
proof (induction cs arbitrary: b st)
  case Nil
  obtain acc w where st: "st = (acc, w)" by (cases st)
  with Nil show ?case by (simp add: world_after_def split: stream_end.splits)
next
  case (Cons c cs)
  obtain acc w where st: "st = (acc, w)" by (cases st)
  let ?st' = "foldl (process_line h) st (butlast (split_nl (b @ c)))"
  have f: "messages (snd ?st') \<noteq> []" "butlast (messages (snd ?st')) = butlast (messages (snd st))"
    using process_lines_front [OF Cons.prems, of h] by simp_all
  have "read_loop h (c # cs) e b st = read_loop h cs e (last (split_nl (b @ c))) ?st'"
    by (simp add: st js_pop_split)
  with Cons.IH [OF f(1)] f(2) show ?case by simp
qed

lemma front_kept:
  assumes "ms \<noteq> []" and "ms' \<noteq> []" and "butlast ms' = ms @ xs"
  shows "hd ms' = hd ms"
proof -
  have "ms' = butlast ms' @ [last ms']" using assms(2) by simp
  then have "ms' = ms @ xs @ [last ms']" using assms(3) by simp
  then have "hd ms' = hd (ms @ xs @ [last ms'])" by simp
  with assms(1) show ?thesis by simp
qed

lemma askChatGPT_head:
  assumes "messages w \<noteq> []"
  shows "messages (call_world (askChatGPT h r w)) \<noteq> []
       \<and> hd (messages (call_world (askChatGPT h r w))) = hd (messages w)"
proof (cases "\<exists>v. userInput w = Some v \<and> js_trim v \<noteq> [] \<and> \<not> loading w")
  case False
  then show ?thesis using assms
    by (auto simp: askChatGPT_def call_world_def showMessage_def Let_def split: option.splits)
next
  case True
  then obtain v where g: "userInput w = Some v" "js_trim v \<noteq> []" "\<not> loading w" by blast
  define u where "u = \<lparr>role = ''user'', content = js_trim v\<rparr>"
  define w6 where "w6 = begin_send h (js_trim v) w"
  have m6: "messages w6 = messages w @ [u]" by (simp add: w6_def u_def begin_send_fields)
  have ask: "askChatGPT h r w =
           (case try_block h r w6 of
              Completed w7 \<Rightarrow> Returned (finally_block w7)
            | Thrown err w7 \<Rightarrow> Returned (finally_block (catch_block h (js_trim v) err w7))
            | Waiting w7 \<Rightarrow> Never_returns w7)"
    using g by (simp add: askChatGPT_def Let_def w6_def)
  show ?thesis
  proof (cases r)
    case (Fetch_rejected m)
    show ?thesis unfolding ask using assms
      by (simp add: Fetch_rejected try_block_def call_world_def m6)
  next
    case Fetch_pending
    show ?thesis unfolding ask using assms
      by (simp add: Fetch_pending try_block_def call_world_def m6)
  next
    case (Fetch_response ok status chunks e)
    show ?thesis
    proof (cases ok)
      case False
      show ?thesis unfolding ask using assms False
        by (simp add: Fetch_response try_block_def call_world_def m6)
    next
      case True
      define w7 where "w7 = renderMessages h (push_message \<lparr>role = ''assistant'', content = []\<rparr> w6)"
      define out where "out = read_loop h chunks e [] ([], w7)"
      have tb: "try_block h r w6 = out"
        using True Fetch_response by (simp add: try_block_def out_def w7_def)
      have m7: "messages w7 = messages w @ [u, \<lparr>role = ''assistant'', content = []\<rparr>]"
        by (simp add: w7_def m6)
      then have ne7: "messages (snd ([] :: string, w7)) \<noteq> []" by simp
      have fr: "messages (world_after out) \<noteq> []"
               "butlast (messages (world_after out)) = messages w @ [u]"
        using read_loop_front [OF ne7, of h chunks e "[]"] m7
        by (simp_all add: out_def butlast_append)
      have hd1: "hd (messages (world_after out)) = hd (messages w)"
        by (rule front_kept [OF assms fr])
      show ?thesis
      proof (cases out)
        case (Completed w8)
        with fr hd1 show ?thesis unfolding ask tb by (simp add: call_world_def world_after_def)
      next
        case (Thrown err w8)
        with fr have "snd (js_pop (messages w8)) = messages w @ [u]"
          by (simp add: world_after_def js_pop_butlast)
        with Thrown assms show ?thesis unfolding ask tb by (simp add: call_world_def)
      next
        case (Waiting w8)
        with fr hd1 show ?thesis unfolding ask tb by (simp add: call_world_def world_after_def)
      qed
    qed
  qed
qed

lemma removeReader_messages [simp]: "messages (removeReader w) = messages w"
  by (simp add: removeReader_def Let_def split: option.splits)

lemma openReader_messages [simp]: "messages (snd (openReader env w)) = messages w"
  by (simp add: openReader_def mount_overlay_def Let_def split: option.splits)

lemma removeReader_loading [simp]: "loading (removeReader w) = loading w"
  by (simp add: removeReader_def Let_def split: option.splits)

lemma openReader_loading [simp]: "loading (snd (openReader env w)) = loading w"
  by (simp add: openReader_def mount_overlay_def Let_def split: option.splits)

lemma onMessage_loading [simp]: "loading (snd (onMessage action env w)) = loading w"
proof -
  obtain res w' where o: "openReader env w = (res, w')" by (cases "openReader env w")
  with openReader_loading [of env w] have "loading w' = loading w" by simp
  with o have t: "loading (snd (toggleReader env w)) = loading w"
    by (simp add: toggleReader_def split: sum.splits)
  obtain ret w'' where b: "toggleReader env w = (ret, w'')" by (cases "toggleReader env w")
  with t have "loading w'' = loading w" by simp
  with b show ?thesis
    by (simp add: onMessage_def split: handed_back.splits)
qed

lemma onMessage_messages [simp]: "messages (snd (onMessage action env w)) = messages w"
proof -
  obtain res w' where o: "openReader env w = (res, w')" by (cases "openReader env w")
  with openReader_messages [of env w] have "messages w' = messages w" by simp
  with o have t: "messages (snd (toggleReader env w)) = messages w"
    by (simp add: toggleReader_def split: sum.splits)
  obtain ret w'' where b: "toggleReader env w = (ret, w'')" by (cases "toggleReader env w")
  with t have "messages w'' = messages w" by simp
  with b show ?thesis
    by (simp add: onMessage_def split: handed_back.splits)
qed

lemma querycontent_head:
  assumes "messages w \<noteq> []"
  shows "messages (world_after (querycontent h env w)) \<noteq> []
       \<and> hd (messages (world_after (querycontent h env w))) = hd (messages w)"
proof -
  obtain res w' where o: "openReader env w = (res, w')" by (cases "openReader env w")
  with openReader_messages [of env w] have "messages w' = messages w" by simp
  with o assms show ?thesis
    by (simp add: querycontent_def world_after_def Let_def split: option.splits sum.splits)
qed

lemma querycontent_length:
  "loading (world_after (querycontent h env w)) = loading w
   \<and> length (messages w) \<le> length (messages (world_after (querycontent h env w)))"
proof -
  obtain res w' where o: "openReader env w = (res, w')" by (cases "openReader env w")
  with openReader_messages [of env w] openReader_loading [of env w]
  have "messages w' = messages w" and "loading w' = loading w" by simp_all
  with o show ?thesis
    by (simp add: querycontent_def world_after_def Let_def split: option.splits sum.splits)
qed

text \<open>A call that has not returned leaves the user's message in the history.\<close>

lemma askChatGPT_length:
  assumes "messages w \<noteq> []" and "loading w \<longrightarrow> 2 \<le> length (messages w)"
  shows "loading (call_world (askChatGPT h r w))
       \<longrightarrow> 2 \<le> length (messages (call_world (askChatGPT h r w)))"
proof (cases "\<exists>v. userInput w = Some v \<and> js_trim v \<noteq> [] \<and> \<not> loading w")
  case False
  then show ?thesis using assms(2)
    by (auto simp: askChatGPT_def call_world_def showMessage_def Let_def split: option.splits)
next
  case True
  then obtain v where g: "userInput w = Some v" "js_trim v \<noteq> []" "\<not> loading w" by blast
  define u where "u = \<lparr>role = ''user'', content = js_trim v\<rparr>"
  define w6 where "w6 = begin_send h (js_trim v) w"
  have m6: "messages w6 = messages w @ [u]" by (simp add: w6_def u_def begin_send_fields)
  have ask: "askChatGPT h r w =
           (case try_block h r w6 of
              Completed w7 \<Rightarrow> Returned (finally_block w7)
            | Thrown err w7 \<Rightarrow> Returned (finally_block (catch_block h (js_trim v) err w7))
            | Waiting w7 \<Rightarrow> Never_returns w7)"
    using g by (simp add: askChatGPT_def Let_def w6_def)
  show ?thesis
  proof (cases "try_block h r w6")
    case (Completed w7)
    then show ?thesis unfolding ask by (simp add: call_world_def)
  next
    case (Thrown err w7)
    then show ?thesis unfolding ask by (simp add: call_world_def)
  next
    case (Waiting w7)
    have "2 \<le> length (messages w7)"
    proof (cases r)
      case (Fetch_rejected m)
      with Waiting show ?thesis by (simp add: try_block_def)
    next
      case Fetch_pending
      with Waiting have "w7 = w6" by (simp add: try_block_def)
      then have "messages w7 = messages w @ [u]" by (simp add: m6)
      with assms(1) show ?thesis by (cases "messages w") simp_all
    next
      case (Fetch_response ok status chunks e)
      define w7' where
        "w7' = renderMessages h (push_message \<lparr>role = ''assistant'', content = []\<rparr> w6)"
      from Waiting Fetch_response have ok: "ok"
        and rl: "read_loop h chunks e [] ([], w7') = Waiting w7"
        by (auto simp: try_block_def w7'_def split: if_splits)
      have ne: "messages (snd ([] :: string, w7')) \<noteq> []" by (simp add: w7'_def)
      have "butlast (messages (world_after (read_loop h chunks e [] ([], w7'))))
          = butlast (messages (snd ([] :: string, w7')))"
        and "messages (world_after (read_loop h chunks e [] ([], w7'))) \<noteq> []"
        using read_loop_front [OF ne, of h chunks e "[]"] by simp_all
      then have "butlast (messages w7) = butlast (messages w7')" and n: "messages w7 \<noteq> []"
        unfolding rl by (simp_all add: world_after_def)
      then have b: "butlast (messages w7) = messages w @ [u]"
        by (simp add: w7'_def m6 butlast_append)
      have "length (messages w7) = Suc (length (butlast (messages w7)))"
        using n by simp
      then show ?thesis by (simp add: b)
    qed
    with Waiting show ?thesis unfolding ask by (simp add: call_world_def)
  qed
qed

lemma process_line_length:
  assumes "2 \<le> length (messages w)"
  shows "messages (snd (process_line h (acc, w) l)) \<noteq> []
       \<and> length (messages (snd (process_line h (acc, w) l))) = length (messages w)
       \<and> hd (messages (snd (process_line h (acc, w) l))) = hd (messages w)"
proof -
  let ?ms' = "messages (snd (process_line h (acc, w) l))"
  have ne: "messages w \<noteq> []" using assms by auto
  have f: "?ms' \<noteq> []" "butlast ?ms' = butlast (messages w)"
    using process_line_front [OF ne, of h acc l] by simp_all
  have "length ?ms' = Suc (length (butlast ?ms'))" using f(1) by simp
  then have len: "length ?ms' = length (messages w)" using ne by (simp add: f(2))
  have b: "butlast (messages w) \<noteq> []" using assms by (cases "messages w") auto
  have "butlast ?ms' = butlast (messages w) @ []" by (simp add: f(2))
  then have "hd ?ms' = hd (butlast (messages w))" by (rule front_kept [OF b f(1)])
  moreover have "hd (butlast (messages w)) = hd (messages w)"
    using b by (cases "messages w") auto
  ultimately show ?thesis using len f(1) by simp
qed

text \<open>The invariant: the history starts with the system prompt, and while a call is under
  way it holds the user's message of the call as well.\<close>

lemma reachable_invariant:
  "reachable w \<Longrightarrow>
     messages w \<noteq> [] \<and> hd (messages w) = hd initial_messages
     \<and> (loading w \<longrightarrow> 2 \<le> length (messages w))"
proof (induction rule: reachable.induct)
  case (start w)
  then show ?case by (simp add: initial_messages_def)
next
  case (edit w v v')
  then show ?case by simp
next
  case (ask w h r)
  with askChatGPT_head [of w h r] askChatGPT_length [of w h r] show ?case by simp
next
  case (sending w v h)
  then show ?case by (cases "messages w") (simp_all add: begin_send_fields)
next
  case (placeholder w h)
  then show ?case by simp
next
  case (line w h acc l)
  then have "2 \<le> length (messages w)" by simp
  from process_line_length [OF this, of h acc l] line show ?case by simp
next
  case (fail w h inputText err)
  then have "2 \<le> length (messages w)" by simp
  then have "butlast (messages w) \<noteq> []" and "hd (butlast (messages w)) = hd (messages w)"
    by (cases "messages w"; auto)+
  with fail show ?case by (simp add: js_pop_butlast)
next
  case (finish w)
  then show ?case by simp
next
  case (query w h env)
  with querycontent_head [of w h env] querycontent_length [of h env w] show ?case by auto
next
  case (render w h)
  then show ?case by simp
next
  case (message w action env)
  then show ?case by simp
next
  case (close w)
  then show ?case by simp
qed

text \<open>
  Claim C3. In every state the session reaches, from the declared history and through the
  user's typing and any calls of \<open>askChatGPT\<close> (on every path, also cut into its pieces
  with other handlers in between, also one that never returns), \<open>querycontent\<close>,
  \<open>renderMessages\<close>, the message listener and \<open>removeReader\<close>, the history is not empty
  and its first element is the system prompt it started with; and \<open>renderMessages\<close>
  puts into the container the messages after the first, never the first.
\<close>

theorem system_prompt_kept:
  assumes "reachable w"
  shows "messages w \<noteq> [] \<and> role (hd (messages w)) = ''system''
       \<and> hd (messages w) = hd initial_messages
       \<and> messagesContainer (renderMessages h w)
           = map_option (\<lambda>_. map (render_item h) (tl (messages w))) (messagesContainer w)"
proof -
  have "messages w \<noteq> []" and e: "hd (messages w) = hd initial_messages"
    using reachable_invariant [OF assms] by simp_all
  moreover have "role (hd (messages w)) = ''system''"
    by (simp add: e initial_messages_def)
  moreover have "messagesContainer (renderMessages h w)
           = map_option (\<lambda>_. map (render_item h) (tl (messages w))) (messagesContainer w)"
    by (simp add: renderMessages_def render_from_0 split: option.splits)
  ultimately show ?thesis by simp
qed

lemma answered_idle:
  "userInput (answered idle_world) = Some [] \<and> \<not> loading (answered idle_world)"
  by code_simp

lemma second_turn_messages:
  "messages second_turn = initial_messages @
     [\<lparr>role = ''user'', content = ''hello''\<rparr>, \<lparr>role = ''assistant'', content = ''Hi there''\<rparr>,
      \<lparr>role = ''user'', content = ''more''\<rparr>, \<lparr>role = ''assistant'', content = ''Hi there''\<rparr>]"
  by code_simp

lemma second_turn_container: "messagesContainer second_turn = Some
     [render_item plain_host \<lparr>role = ''user'', content = ''hello''\<rparr>,
      render_item plain_host \<lparr>role = ''assistant'', content = ''Hi there''\<rparr>,
      render_item plain_host \<lparr>role = ''user'', content = ''more''\<rparr>,
      render_item plain_host \<lparr>role = ''assistant'', content = ''Hi there''\<rparr>]"
  by code_simp

theorem system_prompt_kept_witness:
  "reachable second_turn
   \<and> messages second_turn = initial_messages @
       [\<lparr>role = ''user'', content = ''hello''\<rparr>, \<lparr>role = ''assistant'', content = ''Hi there''\<rparr>,
        \<lparr>role = ''user'', content = ''more''\<rparr>, \<lparr>role = ''assistant'', content = ''Hi there''\<rparr>]
   \<and> role (hd (messages second_turn)) = ''system''
   \<and> messagesContainer (renderMessages plain_host second_turn)
       = Some (map (render_item plain_host)
           [\<lparr>role = ''user'', content = ''hello''\<rparr>, \<lparr>role = ''assistant'', content = ''Hi there''\<rparr>,
            \<lparr>role = ''user'', content = ''more''\<rparr>, \<lparr>role = ''assistant'', content = ''Hi there''\<rparr>])"
proof -
  have "reachable idle_world"
    by (rule reachable.start) (simp_all add: idle_world_def)
  then have r1: "reachable (answered idle_world)"
    unfolding answered_def by (rule reachable.ask)
  have u: "userInput (answered idle_world) = Some []" using answered_idle by simp
  from r1 u have "reachable ((answered idle_world)\<lparr>userInput := Some ''more''\<rparr>)"
    by (rule reachable.edit)
  then have r: "reachable second_turn"
    unfolding second_turn_def answered_def by (rule reachable.ask)
  show ?thesis
    using r system_prompt_kept [OF r, of plain_host]
    by (simp add: second_turn_messages second_turn_container initial_messages_def)
qed

section \<open>Properties of the settings\<close>

lemma map_of_rev_distinct: "distinct (map fst xs) \<Longrightarrow> map_of (rev xs) = map_of xs"
proof (induction xs)
  case Nil
  then show ?case by simp
next
  case (Cons x xs)
  then have ih: "map_of (rev xs) = map_of xs" and nx: "fst x \<notin> fst ` set xs" by simp_all
  have "dom (map_of [x]) \<inter> dom (map_of xs) = {}"
    using nx by (auto simp: dom_map_of_conv_image_fst)
  then have "map_of [x] ++ map_of xs = map_of xs ++ map_of [x]" by (rule map_add_comm)
  moreover have "map_of (rev (x # xs)) = map_of [x] ++ map_of (rev xs)" by simp
  moreover have "map_of xs ++ map_of [x] = map_of (x # xs)" by (cases x) simp
  ultimately show ?case by (simp only: ih)
qed

lemma default_settings_object:
  "object_assign Map.empty (JObj DEFAULT_SETTINGS) = map_of DEFAULT_SETTINGS"
proof
  fix name
  have d: "distinct (map fst DEFAULT_SETTINGS)" by (simp add: DEFAULT_SETTINGS_def)
  have p: "map_of DEFAULT_SETTINGS ''__proto__'' = None" by (simp add: DEFAULT_SETTINGS_def)
  have "map_of (rev DEFAULT_SETTINGS) = map_of DEFAULT_SETTINGS"
    by (rule map_of_rev_distinct [OF d])
  with p show "object_assign Map.empty (JObj DEFAULT_SETTINGS) name = map_of DEFAULT_SETTINGS name"
    by (simp add: object_assign_def own_properties_def)
qed

lemma default_settings_proto: "map_of DEFAULT_SETTINGS ''__proto__'' = None"
  by (simp add: DEFAULT_SETTINGS_def)

text \<open>
  Claim C6. Whatever object is stored under \<open>readerSettings\<close>, and also when the key is
  absent, \<open>fetchReaderSettings\<close> gives a settings object with every field of
  \<open>DEFAULT_SETTINGS\<close>: a field of the stored object has the stored value, every other
  field its default. The one member of a stored object that is not copied is
  \<open>__proto__\<close>, which is no field of the settings: its assignment goes to the setter
  of the prototype and gives the result no property.
\<close>

theorem settings_merged:
  "fetchReaderSettings None = map_of DEFAULT_SETTINGS
   \<and> dom (fetchReaderSettings (Some (JObj kvs)))
       = fst ` set DEFAULT_SETTINGS \<union> (fst ` set kvs - {''__proto__''})
   \<and> fetchReaderSettings (Some (JObj kvs)) k
       = (if k = ''__proto__'' then None
          else case map_of (rev kvs) k of Some v \<Rightarrow> Some v | None \<Rightarrow> map_of DEFAULT_SETTINGS k)"
proof -
  have a: "fetchReaderSettings None = map_of DEFAULT_SETTINGS"
    unfolding fetchReaderSettings_def default_settings_object
    by (rule ext) (simp add: object_assign_def own_properties_def default_settings_proto)
  have e: "fetchReaderSettings (Some (JObj kvs)) name
       = (if name = ''__proto__'' then None
          else case map_of (rev kvs) name of Some v \<Rightarrow> Some v
               | None \<Rightarrow> map_of DEFAULT_SETTINGS name)" for name
    unfolding fetchReaderSettings_def default_settings_object
    by (simp add: object_assign_def own_properties_def default_settings_proto js_truthy_def
          map_add_def split: option.splits)
  have "name \<in> dom (fetchReaderSettings (Some (JObj kvs)))
      \<longleftrightarrow> name \<in> fst ` set DEFAULT_SETTINGS \<union> (fst ` set kvs - {''__proto__''})" for name
  proof (cases "name = ''__proto__''")
    case True
    have "''__proto__'' \<notin> fst ` set DEFAULT_SETTINGS"
      using default_settings_proto by (simp add: map_of_eq_None_iff)
    with True show ?thesis by (simp add: dom_def e)
  next
    case False
    have "(map_of (rev kvs) name \<noteq> None) = (name \<in> fst ` set kvs)"
      by (simp add: map_of_eq_None_iff)
    moreover have "(map_of DEFAULT_SETTINGS name \<noteq> None) = (name \<in> fst ` set DEFAULT_SETTINGS)"
      by (simp add: map_of_eq_None_iff)
    ultimately show ?thesis
      using False by (auto simp: dom_def e split: option.splits)
  qed
  then have b: "dom (fetchReaderSettings (Some (JObj kvs)))
       = fst ` set DEFAULT_SETTINGS \<union> (fst ` set kvs - {''__proto__''})"
    by blast
  from a b e [of k] show ?thesis by simp
qed

lemma settings_example:
  "fetchReaderSettings (Some (JObj [(''darkMode'', JBool True)])) ''darkMode'' = Some (JBool True)
   \<and> fetchReaderSettings (Some (JObj [(''darkMode'', JBool True)])) ''fontSize'' = Some (JNum ''18'')"
  unfolding fetchReaderSettings_def default_settings_object
  by (simp add: object_assign_def js_truthy_def own_properties_def DEFAULT_SETTINGS_def)

lemma settings_proto_example:
  "fetchReaderSettings (Some (JObj [(''__proto__'', JNum ''5'')])) = map_of DEFAULT_SETTINGS"
  unfolding fetchReaderSettings_def default_settings_object
  by (rule ext)
     (simp add: object_assign_def js_truthy_def own_properties_def default_settings_proto
        map_add_def)

section \<open>Properties of the reader overlay\<close>

lemma element_ids_append [simp]: "element_ids (f @ g) = element_ids f @ element_ids g"
  by (induction f rule: element_ids.induct) (simp_all split: option.splits)

lemma getElementById_None: "getElementById i f = None \<longleftrightarrow> i \<notin> set (element_ids f)"
  by (induction i f rule: getElementById.induct) (auto split: option.splits)

lemma getElementById_Some: "(\<exists>e. getElementById i f = Some e) \<longleftrightarrow> i \<in> set (element_ids f)"
  using getElementById_None [of i f] by auto

lemma remove_element_absent: "i \<notin> set (element_ids f) \<Longrightarrow> remove_element i f = f"
  by (induction i f rule: remove_element.induct) (auto simp: getElementById_None split: option.splits)

lemma remove_element_single:
  "count_list (element_ids f) i \<le> 1 \<Longrightarrow> i \<notin> set (element_ids (remove_element i f))"
proof (induction i f rule: remove_element.induct)
  case (1 i)
  then show ?case by simp
next
  case (2 i j cs es)
  show ?case
  proof (cases "j = Some i")
    case True
    with "2.prems" have "count_list (element_ids cs) i + count_list (element_ids es) i = 0"
      by simp
    then have "i \<notin> set (element_ids es)" by (simp add: count_list_0_iff)
    with True show ?thesis by simp
  next
    case False
    then have c: "count_list (element_ids cs) i + count_list (element_ids es) i \<le> 1"
      using "2.prems" by (cases j) auto
    show ?thesis
    proof (cases "getElementById i cs \<noteq> None")
      case True
      then have "i \<in> set (element_ids cs)" by (simp add: getElementById_Some)
      then have "count_list (element_ids cs) i \<noteq> 0" by (simp add: count_list_0_iff)
      with c have "count_list (element_ids cs) i \<le> 1" and "count_list (element_ids es) i = 0"
        by simp_all
      then have "i \<notin> set (element_ids (remove_element i cs))" and "i \<notin> set (element_ids es)"
        using "2.IH"(1) [OF False True] by (simp_all add: count_list_0_iff)
      with False True show ?thesis by (cases j) auto
    next
      case None: False
      then have "i \<notin> set (element_ids cs)" by (simp add: getElementById_None)
      moreover have "count_list (element_ids es) i \<le> 1" using c by simp
      then have "i \<notin> set (element_ids (remove_element i es))"
        using "2.IH"(2) [OF False None] by simp
      ultimately show ?thesis using False None by (cases j) auto
    qed
  qed
qed

lemma overlay_children_ids:
  "i \<in> set (element_ids (overlay_children cs)) \<longleftrightarrow>
     i \<in> set (element_ids cs) \<or> i \<in> {''tab1'', ''messagesContainer'', ''userInput'',
            ''sendButton'', ''tab2'', ''notebookTextarea'', ''saveNotebookBtn'',
            ''exportNotebookBtn''}"
  by (auto simp: overlay_children_def plain_def leaf_def)

lemma removeReader_document:
  "document (removeReader w) = remove_element OVERLAY_ID (document w)"
  by (auto simp: removeReader_def Let_def remove_element_absent getElementById_None
        split: option.splits)

lemma removeReader_unmounts:
  "mounted OVERLAY_ID w \<le> 1 \<Longrightarrow> mounted OVERLAY_ID (removeReader w) = 0"
  using remove_element_single [of "document w" OVERLAY_ID]
  by (simp add: mounted_def removeReader_document count_list_0_iff)

lemma isReaderActive_mounted: "isReaderActive w \<longleftrightarrow> mounted OVERLAY_ID w \<noteq> 0"
  by (simp add: isReaderActive_def mounted_def getElementById_Some count_list_0_iff)


lemma idle_world_mounted: "mounted OVERLAY_ID idle_world = 1"
  by (simp add: mounted_def idle_world_def overlay_children_def plain_def leaf_def OVERLAY_ID_def)

lemma sample_env_clean: "OVERLAY_ID \<notin> set (element_ids (content_elements sample_env))"
  by (simp add: sample_env_def)

lemma overlay_count:
  assumes "OVERLAY_ID \<notin> set (element_ids cs)"
  shows "count_list (element_ids [Element (Some OVERLAY_ID) (overlay_children cs)]) OVERLAY_ID = 1"
proof -
  have "OVERLAY_ID \<notin> set (element_ids (overlay_children cs))"
    using assms by (simp add: overlay_children_ids) (simp add: OVERLAY_ID_def)
  then show ?thesis by (simp add: count_list_0_iff)
qed

lemma mount_overlay_document:
  "document (mount_overlay env w)
     = document w @ [Element (Some OVERLAY_ID) (overlay_children (content_elements env))]"
  by (simp add: mount_overlay_def)

lemma openReader_result:
  assumes "extraction env = Some article"
  shows "openReader env w = (Inr (article_content article), mount_overlay env (removeReader w))"
  using assms by (simp add: openReader_def)

lemma mount_overlay_mounted:
  assumes "OVERLAY_ID \<notin> set (element_ids (content_elements env))"
  shows "mounted OVERLAY_ID (mount_overlay env w) = mounted OVERLAY_ID w + 1"
proof -
  have "mounted OVERLAY_ID (mount_overlay env w) = mounted OVERLAY_ID w
      + count_list (element_ids [Element (Some OVERLAY_ID) (overlay_children (content_elements env))])
          OVERLAY_ID"
    by (simp add: mounted_def mount_overlay_document)
  then show ?thesis
    by (simp only: overlay_count [OF assms])
qed

lemma openReader_mounts:
  assumes "mounted OVERLAY_ID w \<le> 1"
    and "OVERLAY_ID \<notin> set (element_ids (content_elements env))"
    and "openReader env w = (Inr markup, w')"
  shows "mounted OVERLAY_ID w' = 1"
proof -
  obtain article where "extraction env = Some article"
    using assms(3) by (cases "extraction env") (simp_all add: openReader_def)
  with assms(3) have "w' = mount_overlay env (removeReader w)"
    by (simp add: openReader_result)
  then show ?thesis
    using mount_overlay_mounted [OF assms(2), of "removeReader w"]
      removeReader_unmounts [OF assms(1)] by simp
qed

text \<open>
  Claim C8. Given an article, \<open>openReader\<close> succeeds, and what it does is
  \<open>removeReader\<close> first and the mounting of the new overlay on the result, with no state
  in between: the document it leaves is the old one without the element that had the id
  \<open>reader-overlay\<close>, followed by the new overlay. In a document with at most one element
  of the id, and for an article whose markup does not use it, the state after the removal
  has no such element and the state after the mounting has exactly one, the new overlay;
  there are never two.
\<close>

theorem openReader_single_overlay:
  assumes "mounted OVERLAY_ID w \<le> 1"
    and "OVERLAY_ID \<notin> set (element_ids (content_elements env))"
    and "extraction env = Some article"
  shows "openReader env w = (Inr (article_content article), mount_overlay env (removeReader w))
       \<and> document (removeReader w) = remove_element OVERLAY_ID (document w)
       \<and> document (snd (openReader env w))
           = remove_element OVERLAY_ID (document w)
             @ [Element (Some OVERLAY_ID) (overlay_children (content_elements env))]
       \<and> mounted OVERLAY_ID (removeReader w) = 0
       \<and> mounted OVERLAY_ID (snd (openReader env w)) = 1
       \<and> isReaderActive (snd (openReader env w))"
proof -
  have o: "openReader env w = (Inr (article_content article), mount_overlay env (removeReader w))"
    by (rule openReader_result [OF assms(3)])
  have z: "mounted OVERLAY_ID (removeReader w) = 0"
    by (rule removeReader_unmounts [OF assms(1)])
  have m: "mounted OVERLAY_ID (mount_overlay env (removeReader w)) = 1"
    using mount_overlay_mounted [OF assms(2), of "removeReader w"] z by simp
  then have "isReaderActive (mount_overlay env (removeReader w))"
    by (simp add: isReaderActive_mounted)
  with o z m show ?thesis
    by (simp add: mount_overlay_document removeReader_document)
qed

theorem openReader_single_overlay_witness:
  "mounted OVERLAY_ID idle_world \<le> 1
   \<and> OVERLAY_ID \<notin> set (element_ids (content_elements sample_env))
   \<and> extraction sample_env = Some sample_article
   \<and> fst (openReader sample_env idle_world) = Inr ''<p>Text</p>''
   \<and> document (snd (openReader sample_env idle_world))
       = [Element (Some ''page'') [],
          Element (Some OVERLAY_ID) (overlay_children [Element None []])]
   \<and> mounted OVERLAY_ID (removeReader idle_world) = 0
   \<and> mounted OVERLAY_ID (snd (openReader sample_env idle_world)) = 1
   \<and> isReaderActive (snd (openReader sample_env idle_world))"
proof -
  have a: "mounted OVERLAY_ID idle_world \<le> 1" by (simp add: idle_world_mounted)
  have b: "OVERLAY_ID \<notin> set (element_ids (content_elements sample_env))"
    by (rule sample_env_clean)
  have c: "extraction sample_env = Some sample_article" by (simp add: sample_env_def)
  have d: "remove_element OVERLAY_ID (document idle_world) = [Element (Some ''page'') []]"
    by (simp add: idle_world_def OVERLAY_ID_def)
  have e: "content_elements sample_env = [Element None []]" by (simp add: sample_env_def)
  have f: "article_content sample_article = ''<p>Text</p>''" by (simp add: sample_article_def)
  show ?thesis
    using a b c openReader_single_overlay [OF a b c]
    by (auto simp: d e f)
qed

text \<open>
  Claim C9. A \<open>toggle-reader\<close> message should always be answered: with the resulting
  state when \<open>toggleReader\<close> succeeds, with the error when it rejects. When the reader is
  active, \<open>toggleReader\<close> closes it and returns the state object itself, not a promise;
  the listener calls \<open>then\<close> on it, which throws, and no response is sent. The two lemmas
  after the theorem show the answers on an inactive page, which are as the claim says.
\<close>

theorem toggle_message_while_active:
  "isReaderActive idle_world
   \<and> onMessage ''toggle-reader'' sample_env idle_world
       = (Listener_threw (TypeError ''toggleReader(...).then is not a function''),
          removeReader idle_world)"
proof -
  have "isReaderActive idle_world"
    by (simp add: isReaderActive_mounted idle_world_mounted)
  then show ?thesis by (simp add: onMessage_def toggleReader_def)
qed

lemma toggle_message_opens:
  assumes "\<not> isReaderActive w" and "extraction env = Some article"
  shows "fst (onMessage ''toggle-reader'' env w)
       = Listener_returned True (Some \<lparr>success = True, active = Some True, error = None\<rparr>)"
  using assms by (simp add: onMessage_def toggleReader_def openReader_result)

lemma toggle_message_fails:
  assumes "\<not> isReaderActive w" and "extraction env = None"
  shows "fst (onMessage ''toggle-reader'' env w)
       = Listener_returned True
           (Some \<lparr>success = False, active = None, error = Some txt_extract_failed\<rparr>)"
  using assms by (simp add: onMessage_def toggleReader_def openReader_def)

lemma closed_world_inactive: "\<not> isReaderActive closed_world"
  by (simp add: isReaderActive_mounted mounted_def closed_world_def OVERLAY_ID_def)

lemma toggle_message_example:
  "fst (onMessage ''toggle-reader'' sample_env closed_world)
     = Listener_returned True (Some \<lparr>success = True, active = Some True, error = None\<rparr>)
   \<and> mounted OVERLAY_ID (snd (onMessage ''toggle-reader'' sample_env closed_world)) = 1"
proof -
  have e: "extraction sample_env = Some sample_article" by (simp add: sample_env_def)
  have m: "mounted OVERLAY_ID closed_world \<le> 1"
    using closed_world_inactive by (simp add: isReaderActive_mounted)
  obtain markup w' where o: "openReader sample_env closed_world = (Inr markup, w')"
    by (simp add: openReader_result [OF e])
  have "snd (onMessage ''toggle-reader'' sample_env closed_world) = w'"
    using closed_world_inactive o by (simp add: onMessage_def toggleReader_def)
  with openReader_mounts [OF m sample_env_clean o]
    toggle_message_opens [OF closed_world_inactive e]
  show ?thesis by simp
qed

lemma removeReader_inactive:
  assumes "\<not> isReaderActive w"
  shows "removeReader w = w\<lparr>body_classes := classList_remove BODY_ACTIVE_CLASS (body_classes w)\<rparr>"
  using assms by (simp add: removeReader_def isReaderActive_def Let_def)

lemma removeReader_body_classes:
  "body_classes (removeReader w) = classList_remove BODY_ACTIVE_CLASS (body_classes w)"
  by (simp add: removeReader_def Let_def split: option.splits)

text \<open>
  Claim C10. \<open>removeReader\<close> is total, and in a document with at most one element of the
  id \<open>reader-overlay\<close> (none, or the mounted overlay) it leaves the reader inactive and
  a second call changes nothing more. So a \<open>close-reader\<close> message is always answered
  with \<open>{success: true, active: false}\<close>, and the reader is inactive afterwards, whether
  it was active or not.
\<close>

theorem removeReader_idempotent:
  assumes "mounted OVERLAY_ID w \<le> 1"
  shows "removeReader (removeReader w) = removeReader w
       \<and> \<not> isReaderActive (removeReader w)
       \<and> onMessage ''close-reader'' env w
           = (Listener_returned True (Some \<lparr>success = True, active = Some False, error = None\<rparr>),
              removeReader w)"
proof -
  have i: "\<not> isReaderActive (removeReader w)"
    using removeReader_unmounts [OF assms] by (simp add: isReaderActive_mounted)
  have "classList_remove BODY_ACTIVE_CLASS (body_classes (removeReader w))
      = body_classes (removeReader w)"
    by (simp add: removeReader_body_classes classList_remove_def)
  then have "removeReader (removeReader w) = removeReader w"
    by (simp add: removeReader_inactive [OF i])
  with i show ?thesis by (simp add: onMessage_def)
qed

theorem removeReader_idempotent_witness:
  "mounted OVERLAY_ID idle_world \<le> 1
   \<and> removeReader (removeReader idle_world) = removeReader idle_world
   \<and> \<not> isReaderActive (removeReader idle_world)
   \<and> isReaderActive idle_world
   \<and> onMessage ''close-reader'' sample_env idle_world
       = (Listener_returned True (Some \<lparr>success = True, active = Some False, error = None\<rparr>),
          removeReader idle_world)"
proof -
  have a: "mounted OVERLAY_ID idle_world \<le> 1" by (simp add: idle_world_mounted)
  have b: "isReaderActive idle_world"
    by (simp add: isReaderActive_mounted idle_world_mounted)
  show ?thesis
    using a b removeReader_idempotent [OF a, of sample_env] by simp
qed

text \<open>At most one element with the id of the overlay: every function of the script keeps
  it so, as long as the articles it opens do not use the id.\<close>

lemma onMessage_single_overlay:
  assumes "mounted OVERLAY_ID w \<le> 1"
    and "OVERLAY_ID \<notin> set (element_ids (content_elements env))"
  shows "mounted OVERLAY_ID (snd (onMessage action env w)) \<le> 1"
proof -
  have r: "mounted OVERLAY_ID (removeReader w) \<le> 1"
    using removeReader_unmounts [OF assms(1)] by simp
  have c: "mounted OVERLAY_ID (removeReader (console_add e w)) \<le> 1" for e
    using removeReader_unmounts [of "console_add e w"] assms(1) by (simp add: mounted_def)
  obtain res w' where o: "openReader env w = (res, w')" by (cases "openReader env w")
  have t: "mounted OVERLAY_ID (snd (toggleReader env w)) \<le> 1"
  proof (cases res)
    case (Inl err)
    with o have "w' = w" by (auto simp: openReader_def Let_def split: option.splits)
    with o Inl r c show ?thesis by (simp add: toggleReader_def)
  next
    case (Inr markup)
    with o openReader_mounts [OF assms, of markup w'] r show ?thesis
      by (simp add: toggleReader_def)
  qed
  obtain ret w'' where b: "toggleReader env w = (ret, w'')" by (cases "toggleReader env w")
  with t have "mounted OVERLAY_ID w'' \<le> 1" by simp
  with b r assms(1) show ?thesis
    by (simp add: onMessage_def split: handed_back.splits)
qed

end
